theory Spec2Isabelle
  imports Main "HOL-Library.Char_ord" "HOL-Library.List_Lexorder" "HOL-Library.Sublist"
begin

text \<open>
  A model of \<open>bbbb.py\<close>, the script that mirrors a remote block device into a local
  image file and keeps a btrfs subvolume in it synchronised with \<open>btrbk\<close>, and the
  properties of its specification checked against that model. Pure functions are HOL
  functions; functions with effects take and return the trace of what they did to their
  environment; an exception is the left injection of a sum.
\<close>

section \<open>Python built-ins used by bbbb.py\<close>

text \<open>
  A Python \<open>str\<close> is modelled as a \<open>string\<close> whose characters are the code points
  below 256. Within that range the only decimal digits are \<open>0\<close>..\<open>9\<close>, and the
  white space of \<open>str.strip\<close>/\<open>str.split\<close> is 9..13, 28..32, 133 and 160.
  \<open>int()\<close> strips a smaller set (CPython leaves 28..31 in place), accepts one sign and
  single underscores between digits. The limit on the number of digits of recent
  CPython versions is not modelled.
\<close>

definition isspace :: "char \<Rightarrow> bool" where
  "isspace c =
     (let n = (of_char c :: nat)
      in (9 \<le> n \<and> n \<le> 13) \<or> (28 \<le> n \<and> n \<le> 32) \<or> n = 133 \<or> n = 160)"

definition strip :: "string \<Rightarrow> string" where
  "strip s = rev (dropWhile isspace (rev (dropWhile isspace s)))"

definition rstrip :: "string \<Rightarrow> string \<Rightarrow> string" where
  "rstrip chars s = rev (dropWhile (\<lambda>c. c \<in> set chars) (rev s))"

fun split_on :: "char \<Rightarrow> string \<Rightarrow> string list" where
  "split_on sep [] = [[]]"
| "split_on sep (c # cs) =
     (if c = sep then [] # split_on sep cs
      else (case split_on sep cs of
              [] \<Rightarrow> [[c]]
            | w # ws \<Rightarrow> (c # w) # ws))"

fun split_words :: "string \<Rightarrow> string \<Rightarrow> string list" where
  "split_words cur [] = (if cur = [] then [] else [cur])"
| "split_words cur (c # cs) =
     (if isspace c then (if cur = [] then split_words [] cs else cur # split_words [] cs)
      else split_words (cur @ [c]) cs)"

definition split_ws :: "string \<Rightarrow> string list" where
  "split_ws s = split_words [] s"

fun startswith :: "string \<Rightarrow> string \<Rightarrow> bool" where
  "startswith s [] = True"
| "startswith [] (p # ps) = False"
| "startswith (c # cs) (p # ps) = (c = p \<and> startswith cs ps)"

definition is_digit :: "char \<Rightarrow> bool" where
  "is_digit c = (let n = (of_char c :: nat) in 48 \<le> n \<and> n \<le> 57)"

definition digit_val :: "char \<Rightarrow> int" where
  "digit_val c = int (of_char c) - 48"

definition int_space :: "char \<Rightarrow> bool" where
  "int_space c =
     (let n = (of_char c :: nat)
      in (9 \<le> n \<and> n \<le> 13) \<or> n = 32 \<or> n = 133 \<or> n = 160)"

fun int_digits :: "bool \<Rightarrow> int \<Rightarrow> string \<Rightarrow> int option" where
  "int_digits prev acc [] = (if prev then Some acc else None)"
| "int_digits prev acc (c # cs) =
     (if is_digit c then int_digits True (10 * acc + digit_val c) cs
      else if c = CHR ''_'' \<and> prev then int_digits False acc cs
      else None)"

definition py_int :: "string \<Rightarrow> int option" where
  "py_int s =
     (case rev (dropWhile int_space (rev (dropWhile int_space s))) of
        [] \<Rightarrow> None
      | c # cs \<Rightarrow>
          if c = CHR ''-'' then map_option uminus (int_digits False 0 cs)
          else if c = CHR ''+'' then int_digits False 0 cs
          else int_digits False 0 (c # cs))"

definition digit_char :: "nat \<Rightarrow> char" where
  "digit_char d = char_of (48 + d)"

function str_nat :: "nat \<Rightarrow> string" where
  "str_nat n = (if n < 10 then [digit_char n] else str_nat (n div 10) @ [digit_char (n mod 10)])"
  by pat_completeness auto
termination
  by (relation "measure id") auto

declare str_nat.simps [simp del]

definition str_int :: "int \<Rightarrow> string" where
  "str_int i = (if i < 0 then CHR ''-'' # str_nat (nat (- i)) else str_nat (nat i))"

section \<open>Exceptions\<close>

datatype error =
    ValueError string
  | IntValueError string
  | IndexError
  | RuntimeError string
  | CalledProcessError int string
  | OSError string
  | SystemExit int

text \<open>
  \<open>IntValueError s\<close> is the \<open>ValueError\<close> that \<open>int(s)\<close> raises on a string it does
  not accept; it is kept apart from the \<open>ValueError\<close>s the program raises itself so
  that the two can be told apart, as their messages do in Python.
\<close>

section \<open>The partition-table parser\<close>

type_synonym partition = "string \<times> string \<times> string \<times> string"

fun parse_lines :: "string list \<Rightarrow> partition list \<Rightarrow> error + partition list" where
  "parse_lines [] partitions = Inr partitions"
| "parse_lines (line # rest) partitions =
     (let fields = split_on CHR '':'' line in
      if length fields < 5 then parse_lines rest partitions
      else
        (let part_num = fields ! 0;
             start = rstrip ''B'' (fields ! 1);
             end' = rstrip ''B'' (fields ! 2)
         in case py_int end' of
              None \<Rightarrow> Inl (IntValueError end')
            | Some e \<Rightarrow>
               (case py_int start of
                  None \<Rightarrow> Inl (IntValueError start)
                | Some s \<Rightarrow>
                    parse_lines rest
                      (partitions @ [(part_num, str_int (e - s), start, fields ! 4)]))))"

definition parse_parted_output :: "string \<Rightarrow> error + (string \<times> partition list)" where
  "parse_parted_output output =
     (let lines = split_on (CHR 0x0A) (strip output) in
      if length lines < 3 then Inl (ValueError ''Invalid parted output'')
      else
        (let disk_info = split_on CHR '':'' (lines ! 1) in
         if length disk_info < 2 then Inl IndexError
         else
           (let disk_size = rstrip ''B'' (disk_info ! 1) in
            case parse_lines (drop 2 lines) [] of
              Inl e \<Rightarrow> Inl e
            | Inr partitions \<Rightarrow> Inr (disk_size, partitions))))"

section \<open>Commands, their outcomes and the trace of a run\<close>

text \<open>
  Everything the program does to its environment is an \<open>action\<close>: a local command
  (\<open>subprocess.run\<close> with a shell string or with an argument vector), a remote command
  (\<open>ssh.exec_command\<close>), the SSH connection, a file operation or a \<open>print\<close>. The
  environment is a \<open>world\<close>: it answers an action, given everything that happened
  before, with an exit status and the two captured streams. A run threads the trace of
  answered actions. For a file operation a non-zero status stands for the \<open>OSError\<close>
  Python raises. For \<open>Connect\<close> status 1 stands for \<open>paramiko.SSHException\<close> and
  any other non-zero status for another exception of \<open>ssh.connect\<close> (a refused
  connection, a name that does not resolve), an \<open>OSError\<close>. The external tools are
  assumed to be installed, and a remote command's streams are taken as already decoded
  text.
\<close>

record proc =
  returncode :: int
  stdout :: string
  stderr :: string

datatype action =
    Connect string
  | Run string
  | RunArgv "string list"
  | ExecCommand string
  | GetPeerName
  | OpenFile string string
  | Truncate string int
  | WriteData string string
  | Print string
  | Close

type_synonym trace = "(action \<times> proc) list"

type_synonym world = "trace \<Rightarrow> action \<Rightarrow> proc"

definition perform :: "world \<Rightarrow> action \<Rightarrow> trace \<Rightarrow> proc \<times> trace" where
  "perform w a tr = (let p = w tr a in (p, tr @ [(a, p)]))"

definition and_then ::
  "(error + 'a) \<times> trace \<Rightarrow> ('a \<Rightarrow> trace \<Rightarrow> (error + 'b) \<times> trace) \<Rightarrow> (error + 'b) \<times> trace" where
  "and_then r f = (case r of (Inl e, tr) \<Rightarrow> (Inl e, tr) | (Inr x, tr) \<Rightarrow> f x tr)"

text \<open>
  \<open>subprocess.run(cmd, shell=True, check=True)\<close> and its argument-vector form. The
  \<open>CalledProcessError\<close> of the latter records the argument vector concatenated.
\<close>

definition run_checked :: "world \<Rightarrow> string \<Rightarrow> trace \<Rightarrow> (error + proc) \<times> trace" where
  "run_checked w cmd tr =
     (let (p, tr') = perform w (Run cmd) tr
      in (if returncode p \<noteq> 0 then Inl (CalledProcessError (returncode p) cmd) else Inr p, tr'))"

definition run_argv_checked :: "world \<Rightarrow> string list \<Rightarrow> trace \<Rightarrow> (error + proc) \<times> trace" where
  "run_argv_checked w argv tr =
     (let (p, tr') = perform w (RunArgv argv) tr
      in (if returncode p \<noteq> 0 then Inl (CalledProcessError (returncode p) (concat argv)) else Inr p, tr'))"

text \<open>A file operation: \<open>open\<close>, \<open>truncate\<close>, \<open>write\<close> followed by \<open>flush\<close>.\<close>

definition file_op :: "world \<Rightarrow> action \<Rightarrow> trace \<Rightarrow> (error + unit) \<times> trace" where
  "file_op w a tr =
     (let (p, tr') = perform w a tr
      in (if returncode p \<noteq> 0 then Inl (OSError (stderr p)) else Inr (), tr'))"

definition to_int :: "string \<Rightarrow> trace \<Rightarrow> (error + int) \<times> trace" where
  "to_int s tr = (case py_int s of None \<Rightarrow> (Inl (IntValueError s), tr) | Some n \<Rightarrow> (Inr n, tr))"

section \<open>The probes and the device path resolver\<close>

definition parted_command :: "string \<Rightarrow> string" where
  "parted_command device = ''parted --machine '' @ device @ '' unit B print''"

definition get_partitions_ssh ::
  "world \<Rightarrow> string \<Rightarrow> trace \<Rightarrow> (error + (string \<times> partition list)) \<times> trace" where
  "get_partitions_ssh w device tr =
     (let (p, tr') = perform w (ExecCommand (parted_command device)) tr
      in (parse_parted_output (stdout p), tr'))"

definition parted_argv :: "string \<Rightarrow> string list" where
  "parted_argv device = [''parted'', ''--machine'', device, ''unit'', ''B'', ''print'']"

definition get_partitions_local ::
  "world \<Rightarrow> string \<Rightarrow> trace \<Rightarrow> (error + (string \<times> partition list)) \<times> trace" where
  "get_partitions_local w device tr =
     (let (result, tr') = perform w (RunArgv (parted_argv device)) tr
      in if returncode result \<noteq> 0
         then (Inl (RuntimeError (''Failed to run parted: '' @ stderr result)), tr')
         else (parse_parted_output (stdout result), tr'))"

text \<open>\<open>part_num\<close> is the text that \<open>"{}".format\<close> renders for the partition number.\<close>

definition get_partition_device :: "string \<Rightarrow> string \<Rightarrow> string" where
  "get_partition_device device part_num =
     (if startswith device ''/dev/mmcblk'' \<or> startswith device ''/dev/nvme''
      then device @ ''p'' @ part_num
      else device @ part_num)"

fun first_btrfs :: "partition list \<Rightarrow> partition option" where
  "first_btrfs [] = None"
| "first_btrfs (part # rest) =
     (if snd (snd (snd part)) = ''btrfs'' then Some part else first_btrfs rest)"

definition get_btrfs_partition_offset :: "partition list \<Rightarrow> error + int" where
  "get_btrfs_partition_offset partitions =
     (case first_btrfs partitions of
        None \<Rightarrow> Inl (ValueError ''No btrfs partition found on the device.'')
      | Some btrfs_partition \<Rightarrow>
          (case py_int (fst (snd (snd btrfs_partition))) of
             None \<Rightarrow> Inl (IntValueError (fst (snd (snd btrfs_partition))))
           | Some n \<Rightarrow> Inr n))"

section \<open>The image initializer\<close>

definition copy_command :: "string \<Rightarrow> int \<Rightarrow> string" where
  "copy_command device btrfs_start =
     ''dd if='' @ device @ '' bs=1K count='' @ str_int (btrfs_start div 1024)"

text \<open>
  The receive loop: \<open>recv(1024)\<close> hands over the next bytes of the remote command's
  output until it is exhausted; each chunk is written and flushed.
\<close>

function copy_stream ::
  "world \<Rightarrow> string \<Rightarrow> string \<Rightarrow> trace \<Rightarrow> (error + unit) \<times> trace" where
  "copy_stream w output_file pending tr =
     (let data = take 1024 pending in
      if data = [] then (Inr (), tr)
      else (case file_op w (WriteData output_file data) tr of
              (Inl e, tr') \<Rightarrow> (Inl e, tr')
            | (Inr u, tr') \<Rightarrow> copy_stream w output_file (drop 1024 pending) tr'))"
  by pat_completeness auto
termination
  by (relation "measure (\<lambda>(w, output_file, pending, tr). length pending)") auto

declare copy_stream.simps [simp del]

definition loop_device :: string where
  "loop_device = ''/dev/loop0''"

definition losetup_command :: "string \<Rightarrow> string" where
  "losetup_command output_file = ''losetup '' @ loop_device @ '' --partscan '' @ output_file"

definition mkfs_command :: "string \<Rightarrow> string" where
  "mkfs_command uuid = ''mkfs.btrfs --uuid '' @ uuid @ '' '' @ loop_device @ ''p2''"

definition detach_command :: string where
  "detach_command = ''losetup --detach '' @ loop_device"

text \<open>Lines 95 to 100 of \<open>create_initial_image\<close>: bind, make the filesystem, detach.\<close>

definition make_filesystem :: "world \<Rightarrow> string \<Rightarrow> string \<Rightarrow> trace \<Rightarrow> (error + unit) \<times> trace" where
  "make_filesystem w uuid output_file tr =
     and_then (run_checked w (losetup_command output_file) tr) (\<lambda>_ tr1.
     and_then (run_checked w (mkfs_command uuid) tr1) (\<lambda>_ tr2.
     and_then (run_checked w detach_command tr2) (\<lambda>_ tr3. (Inr (), tr3))))"

definition blkid_command :: "string \<Rightarrow> string" where
  "blkid_command device = ''blkid -o value -s UUID '' @ get_partition_device device (str_int 2)"

definition create_initial_image :: "world \<Rightarrow> string \<Rightarrow> string \<Rightarrow> trace \<Rightarrow> (error + unit) \<times> trace" where
  "create_initial_image w device output_file tr =
     and_then (get_partitions_ssh w device tr) (\<lambda>(disk_size, partitions) tr1.
       if partitions = [] then (Inl (ValueError ''No partitions found on the device.''), tr1)
       else
         (let (p, tr2) = perform w (ExecCommand (blkid_command device)) tr1;
              uuid = strip (stdout p)
          in if uuid = [] then (Inl (ValueError ''Failed to get UUID of the btrfs partition.''), tr2)
             else
               (let first_partition = get_partition_device device (str_int 1);
                    (_, tr3) = perform w (ExecCommand (''mount -o remount,ro '' @ first_partition)) tr2
                in and_then (file_op w (OpenFile output_file ''wb'') tr3) (\<lambda>_ tr4.
                   and_then (to_int disk_size tr4) (\<lambda>n tr5.
                   and_then (file_op w (Truncate output_file n) tr5) (\<lambda>_ tr6.
                   and_then (get_btrfs_partition_offset partitions, tr6) (\<lambda>btrfs_start tr7.
                     (let (dd, tr8) = perform w (ExecCommand (copy_command device btrfs_start)) tr7
                      in and_then (file_op w (OpenFile output_file ''r+b'') tr8) (\<lambda>_ tr9.
                         and_then (copy_stream w output_file (stdout dd) tr9) (\<lambda>_ tr10.
                           make_filesystem w uuid output_file tr10))))))))))"

section \<open>The snapshot selector\<close>

text \<open>Python's truth value of \<open>newest_snapshot\<close>: \<open>None\<close> and the empty string are false.\<close>

definition falsy :: "string option \<Rightarrow> bool" where
  "falsy v = (case v of None \<Rightarrow> True | Some s \<Rightarrow> s = [])"

fun find_newest :: "string \<Rightarrow> string list \<Rightarrow> string option \<Rightarrow> string option" where
  "find_newest subvolume [] newest_snapshot = newest_snapshot"
| "find_newest subvolume (line # rest) newest_snapshot =
     (let fields = split_ws line in
      if length fields < 9 then find_newest subvolume rest newest_snapshot
      else
        (let name = fields ! 8 in
         if \<not> startswith name (subvolume @ ''.'') then find_newest subvolume rest newest_snapshot
         else if falsy newest_snapshot \<or> (case newest_snapshot of None \<Rightarrow> False | Some n \<Rightarrow> n < name)
         then find_newest subvolume rest (Some name)
         else find_newest subvolume rest newest_snapshot))"

text \<open>Lines 138 to 151 of \<open>run_backup\<close>, from the listing's lines to the chosen name.\<close>

definition select_snapshot :: "string \<Rightarrow> string list \<Rightarrow> error + string" where
  "select_snapshot subvolume lines =
     (case find_newest subvolume lines None of
        None \<Rightarrow> Inl (ValueError ''No snapshots found.'')
      | Some n \<Rightarrow> if n = [] then Inl (ValueError ''No snapshots found.'') else Inr n)"

section \<open>The backup session\<close>

definition mount_point :: string where
  "mount_point = ''/mnt''"

definition config_file :: string where
  "config_file = ''/tmp/btrbk.conf''"

definition local_mount_command :: string where
  "local_mount_command = ''mount '' @ loop_device @ ''p2 -o subvolid=5 '' @ mount_point"

definition remote_mount_command :: "string \<Rightarrow> string" where
  "remote_mount_command device =
     ''mount '' @ get_partition_device device (str_int 2) @ '' -o subvolid=5 '' @ mount_point"

definition btrbk_config :: "string \<Rightarrow> string \<Rightarrow> string" where
  "btrbk_config peer subvolume =
     [CHR 0x0A] @ ''volume '' @ peer @ '':/mnt'' @ [CHR 0x0A] @
     ''  target '' @ mount_point @ [CHR 0x0A] @
     ''  subvolume '' @ subvolume @ [CHR 0x0A]"

definition btrbk_argv :: "string list" where
  "btrbk_argv = [''btrbk'', ''--config'', config_file, ''--format=raw'', ''run'']"

definition umount_command :: string where
  "umount_command = ''umount '' @ mount_point"

text \<open>Lines 106 to 126 of \<open>run_backup\<close>: everything before the \<open>try\<close>.\<close>

definition mount_stage ::
  "world \<Rightarrow> string \<Rightarrow> string \<Rightarrow> string \<Rightarrow> trace \<Rightarrow> (error + unit) \<times> trace" where
  "mount_stage w device output_file subvolume tr =
     and_then (get_partitions_local w output_file tr) (\<lambda>(disk_size, partitions) tr1.
     and_then (run_checked w (losetup_command output_file) tr1) (\<lambda>_ tr2.
     and_then (run_checked w local_mount_command tr2) (\<lambda>_ tr3.
       (let (r, tr4) = perform w (ExecCommand (remote_mount_command device)) tr3;
            (_, tr5) = perform w (Print (stderr r)) tr4;
            (peer, tr6) = perform w GetPeerName tr5
        in and_then (file_op w (OpenFile config_file ''w'') tr6) (\<lambda>_ tr7.
           file_op w (WriteData config_file (btrbk_config (stdout peer) subvolume)) tr7)))))"

text \<open>Lines 129 to 155: the body of the \<open>try\<close>.\<close>

definition sync_and_rotate :: "world \<Rightarrow> string \<Rightarrow> trace \<Rightarrow> (error + unit) \<times> trace" where
  "sync_and_rotate w subvolume tr =
     and_then (run_argv_checked w btrbk_argv tr) (\<lambda>_ tr1.
       (let (_, tr2) = perform w (Run (''btrfs subvolume delete '' @ mount_point @ ''/'' @ subvolume)) tr1;
            (result, tr3) = perform w (Run (''btrfs subvolume list '' @ mount_point)) tr2
        in if returncode result \<noteq> 0
           then (Inl (RuntimeError (''Failed to list btrfs subvolumes: '' @ stderr result)), tr3)
           else
             and_then (select_snapshot subvolume (split_on (CHR 0x0A) (strip (stdout result))), tr3)
               (\<lambda>newest_snapshot tr4.
             and_then (run_checked w (''btrfs subvolume snapshot '' @ mount_point @ ''/'' @ newest_snapshot
                                        @ '' '' @ mount_point @ ''/'' @ subvolume) tr4) (\<lambda>_ tr5.
             and_then (run_checked w (''btrfs subvolume set-default '' @ mount_point @ ''/'' @ subvolume) tr5)
               (\<lambda>_ tr6. (Inr (), tr6))))))"

text \<open>Lines 158 to 160: the \<open>finally\<close> block.\<close>

definition cleanup :: "world \<Rightarrow> trace \<Rightarrow> (error + unit) \<times> trace" where
  "cleanup w tr =
     and_then (run_checked w umount_command tr) (\<lambda>_ tr1.
     and_then (run_checked w detach_command tr1) (\<lambda>_ tr2.
       (let (_, tr3) = perform w (ExecCommand umount_command) tr2 in (Inr (), tr3))))"

text \<open>
  \<open>try ... finally\<close>: the block's outcome stands unless the \<open>finally\<close> block raises,
  in which case that exception replaces it.
\<close>

definition run_backup ::
  "world \<Rightarrow> string \<Rightarrow> string \<Rightarrow> string \<Rightarrow> trace \<Rightarrow> (error + unit) \<times> trace" where
  "run_backup w device output_file subvolume tr =
     and_then (mount_stage w device output_file subvolume tr) (\<lambda>_ tr1.
       (let (r, tr2) = sync_and_rotate w subvolume tr1;
            (c, tr3) = cleanup w tr2
        in (case c of Inl e \<Rightarrow> Inl e | Inr _ \<Rightarrow> r, tr3)))"

section \<open>The command-line entry point\<close>


definition stat_command :: "string \<Rightarrow> string" where
  "stat_command output = ''stat -c %s '' @ output"




section \<open>Notions used to state the properties\<close>

text \<open>The value of a string of decimal digits, read left to right.\<close>

definition dec_value :: "int \<Rightarrow> string \<Rightarrow> int" where
  "dec_value acc ds = foldl (\<lambda>a c. 10 * a + digit_val c) acc ds"

text \<open>
  The lines of a listing as the parser sees them, the lines it keeps as partition lines
  and their offset fields. A listing is well formed when it has a disk line with a size
  field and every kept line carries offsets that \<open>int()\<close> accepts.
\<close>

definition listing_lines :: "string \<Rightarrow> string list" where
  "listing_lines output = split_on (CHR 0x0A) (strip output)"

definition kept :: "string \<Rightarrow> bool" where
  "kept line = (5 \<le> length (split_on CHR '':'' line))"

definition start_field :: "string \<Rightarrow> string" where
  "start_field line = rstrip ''B'' (split_on CHR '':'' line ! 1)"

definition end_field :: "string \<Rightarrow> string" where
  "end_field line = rstrip ''B'' (split_on CHR '':'' line ! 2)"

definition data_lines :: "string \<Rightarrow> string list" where
  "data_lines output = filter kept (drop 2 (listing_lines output))"

definition offsets_ok :: "string \<Rightarrow> bool" where
  "offsets_ok line = (py_int (start_field line) \<noteq> None \<and> py_int (end_field line) \<noteq> None)"

definition well_formed :: "string \<Rightarrow> bool" where
  "well_formed output =
     (3 \<le> length (listing_lines output) \<and>
      2 \<le> length (split_on CHR '':'' (listing_lines output ! 1)) \<and>
      list_all offsets_ok (data_lines output))"

definition record_of :: "string \<Rightarrow> partition" where
  "record_of line =
     (let fields = split_on CHR '':'' line
      in (fields ! 0, str_int (the (py_int (end_field line)) - the (py_int (start_field line))),
          start_field line, fields ! 4))"

definition sample_listing :: string where
  "sample_listing =
     ''BYT;'' @ [CHR 0x0A] @
     ''/dev/sda:4096B:scsi:512:512:msdos:ATA Disk:;'' @ [CHR 0x0A] @
     ''1:512B:1535B:1024B:fat32::boot;'' @ [CHR 0x0A] @
     ''2:1536B:4095B:2560B:btrfs::;'' @ [CHR 0x0A]"

definition no_disk_field_listing :: string where
  "no_disk_field_listing = ''BYT;'' @ [CHR 0x0A] @ ''sda'' @ [CHR 0x0A] @ ''1:xB:1535B:1024B:fat32::;''"

definition bad_offset_listing :: string where
  "bad_offset_listing =
     ''BYT;'' @ [CHR 0x0A] @ ''/dev/sda:4096B:scsi:512:512:msdos:ATA Disk:;'' @ [CHR 0x0A] @
     ''1:0.5kB:1535B:1024B:fat32::;''"

text \<open>
  The names a subvolume listing shows (the ninth white-space separated field of every
  line that has one) and, among them, the snapshots of a subvolume.
\<close>

definition listed_names :: "string list \<Rightarrow> string list" where
  "listed_names lines = map (\<lambda>l. split_ws l ! 8) (filter (\<lambda>l. 9 \<le> length (split_ws l)) lines)"

definition snapshot_names :: "string \<Rightarrow> string list \<Rightarrow> string list" where
  "snapshot_names subvolume lines =
     filter (\<lambda>name. startswith name (subvolume @ ''.'')) (listed_names lines)"

definition example_lines :: "string list" where
  "example_lines =
     [''ID 256 gen 10 top level 5 path @.20250101T0000'',
      ''ID 257 gen 12 top level 5 path @.20250831T0152'',
      ''ID 258 gen 11 top level 5 path @.20250601T1200'']"

definition other_lines :: "string list" where
  "other_lines = [''ID 256 gen 10 top level 5 path home'', ''ID 257 gen 12 top level 5 path @'', '''']"

text \<open>The trace after one more action, and the bytes written to a file in a trace.\<close>

definition after :: "world \<Rightarrow> trace \<Rightarrow> action \<Rightarrow> trace" where
  "after w tr a = tr @ [(a, w tr a)]"

definition written :: "string \<Rightarrow> trace \<Rightarrow> string" where
  "written path tr =
     concat (map (\<lambda>(a, p). case a of WriteData f d \<Rightarrow> if f = path then d else [] | _ \<Rightarrow> []) tr)"

definition actions :: "trace \<Rightarrow> action list" where
  "actions tr = map fst tr"

text \<open>
  A concrete environment for the examples: the device \<open>/dev/sda\<close> of the sample
  listing, the image \<open>backup.img\<close>, and a list of actions that fail with status 1.
\<close>

definition disk_bytes :: string where
  "disk_bytes = replicate 4096 (CHR ''x'')"

definition session_world :: "action list \<Rightarrow> world" where
  "session_world failing tr a =
     \<lparr>returncode = (if a \<in> set failing then 1 else 0),
      stdout =
        (if a = ExecCommand (parted_command ''/dev/sda'') \<or> a = RunArgv (parted_argv ''backup.img'')
         then sample_listing
         else if a = ExecCommand (blkid_command ''/dev/sda'') then ''0f3a'' @ [CHR 0x0A]
         else if a = ExecCommand ''dd if=/dev/sda bs=1K count=1'' then take 1024 disk_bytes
         else if a = Run (stat_command ''backup.img'') then ''4096'' @ [CHR 0x0A]
         else if a = GetPeerName then ''192.0.2.7''
         else if a = Run ''btrfs subvolume list /mnt'' then concat (map (\<lambda>l. l @ [CHR 0x0A]) example_lines)
         else []),
      stderr = (if a \<in> set failing then ''failed'' else [])\<rparr>"


text \<open>An environment in which the device \<open>/dev/sdz\<close> does not exist.\<close>

definition missing_device_world :: world where
  "missing_device_world tr a =
     \<lparr>returncode = 1, stdout = [],
      stderr = ''Error: Could not stat device /dev/sdz - No such file or directory.''\<rparr>"

text \<open>
  Proof devices for the initializer: a step is quiet when it neither attempts the
  detach nor fails with the detach's error; a run is settled when the detach was
  attempted exactly if the run succeeded or failed in the detach itself.
\<close>

definition quiet :: "(error + 'a) \<times> trace \<Rightarrow> bool" where
  "quiet r = (Run detach_command \<notin> set (actions (snd r)) \<and>
              (\<forall>rc. fst r \<noteq> Inl (CalledProcessError rc detach_command)))"

definition settled :: "(error + unit) \<times> trace \<Rightarrow> bool" where
  "settled r = (Run detach_command \<in> set (actions (snd r)) \<longleftrightarrow>
         fst r = Inr () \<or> (\<exists>rc. fst r = Inl (CalledProcessError rc detach_command)))"

section \<open>Decimal rendering and reading\<close>

lemma str_nat_small: "n < 10 \<Longrightarrow> str_nat n = [digit_char n]"
  by (subst str_nat.simps) simp

lemma str_nat_big: "\<not> n < 10 \<Longrightarrow> str_nat n = str_nat (n div 10) @ [digit_char (n mod 10)]"
  by (subst str_nat.simps) simp

lemma of_char_digit_char: "d < 10 \<Longrightarrow> (of_char (digit_char d) :: nat) = 48 + d"
  by (simp add: digit_char_def)

lemma is_digit_digit_char: "d < 10 \<Longrightarrow> is_digit (digit_char d)"
  by (simp add: is_digit_def of_char_digit_char)

lemma digit_val_digit_char: "d < 10 \<Longrightarrow> digit_val (digit_char d) = int d"
  by (simp add: digit_val_def of_char_digit_char)

lemma not_int_space_digit: "is_digit c \<Longrightarrow> \<not> int_space c"
  by (auto simp: is_digit_def int_space_def Let_def)

lemma str_nat_digits: "list_all is_digit (str_nat n) \<and> str_nat n \<noteq> []"
proof (induction n rule: str_nat.induct)
  case (1 n)
  show ?case
  proof (cases "n < 10")
    case True
    then show ?thesis by (simp add: str_nat_small is_digit_digit_char)
  next
    case False
    with 1 show ?thesis by (simp add: str_nat_big is_digit_digit_char)
  qed
qed

lemma int_digits_all_digits:
  "list_all is_digit ds \<Longrightarrow> ds \<noteq> [] \<or> prev \<Longrightarrow> int_digits prev acc ds = Some (dec_value acc ds)"
  by (induction ds arbitrary: prev acc) (auto simp: dec_value_def)

lemma dec_value_str_nat: "dec_value 0 (str_nat n) = int n"
proof (induction n rule: str_nat.induct)
  case (1 n)
  show ?case
  proof (cases "n < 10")
    case True
    then show ?thesis by (simp add: str_nat_small dec_value_def digit_val_digit_char)
  next
    case False
    with 1 have "dec_value 0 (str_nat (n div 10)) = int (n div 10)" by simp
    with False show ?thesis
      by (simp add: str_nat_big dec_value_def digit_val_digit_char zdiv_int zmod_int)
  qed
qed

lemma int_digits_str_nat: "int_digits False 0 (str_nat n) = Some (int n)"
  using int_digits_all_digits [of "str_nat n" False 0] str_nat_digits [of n]
  by (simp add: dec_value_str_nat)

lemma dropWhile_hd: "xs \<noteq> [] \<Longrightarrow> \<not> P (hd xs) \<Longrightarrow> dropWhile P xs = xs"
  by (cases xs) auto

lemma str_nat_hd: "\<not> int_space (hd (str_nat n))"
  using str_nat_digits [of n] by (cases "str_nat n") (auto simp: not_int_space_digit)

lemma str_nat_last: "\<not> int_space (last (str_nat n))"
proof -
  have "last (str_nat n) \<in> set (str_nat n)" using str_nat_digits [of n] by simp
  then have "is_digit (last (str_nat n))" using str_nat_digits [of n] by (simp add: list_all_iff)
  then show ?thesis by (rule not_int_space_digit)
qed

lemma int_strip_keeps:
  assumes "xs \<noteq> []" "\<not> int_space (hd xs)" "\<not> int_space (last xs)"
  shows "rev (dropWhile int_space (rev (dropWhile int_space xs))) = xs"
proof -
  have a: "dropWhile int_space xs = xs" using assms by (simp add: dropWhile_hd)
  have "dropWhile int_space (rev xs) = rev xs"
    using assms by (intro dropWhile_hd) (simp_all add: hd_rev)
  with a show ?thesis by simp
qed

lemma py_int_str_int: "py_int (str_int i) = Some i"
proof (cases "i < 0")
  case True
  let ?ds = "str_nat (nat (- i))"
  have ne: "?ds \<noteq> []" using str_nat_digits by simp
  have "rev (dropWhile int_space (rev (dropWhile int_space (CHR ''-'' # ?ds)))) = CHR ''-'' # ?ds"
    using ne str_nat_last [of "nat (- i)"]
    by (intro int_strip_keeps) (simp_all add: int_space_def)
  with True show ?thesis
    by (simp add: py_int_def str_int_def int_digits_str_nat)
next
  case False
  let ?ds = "str_nat (nat i)"
  have ne: "?ds \<noteq> []" using str_nat_digits by simp
  have keep: "rev (dropWhile int_space (rev (dropWhile int_space ?ds))) = ?ds"
    using ne str_nat_hd str_nat_last by (intro int_strip_keeps)
  obtain c cs where cs: "?ds = c # cs" using ne by (cases ?ds) auto
  have dg: "is_digit c" using str_nat_digits [of "nat i"] cs by simp
  have "c \<noteq> CHR ''-''" "c \<noteq> CHR ''+''" using dg by (auto simp: is_digit_def)
  with False keep cs int_digits_str_nat [of "nat i"] show ?thesis
    by (simp add: py_int_def str_int_def)
qed

lemma digit_char_values:
  "digit_char 0 = CHR ''0''" "digit_char (Suc 0) = CHR ''1''" "digit_char 2 = CHR ''2''"
  "digit_char 3 = CHR ''3''" "digit_char 4 = CHR ''4''" "digit_char 5 = CHR ''5''"
  "digit_char 6 = CHR ''6''" "digit_char 7 = CHR ''7''" "digit_char 8 = CHR ''8''"
  "digit_char 9 = CHR ''9''"
  using char_of_char [where ?'a = nat, of "CHR ''0''"] char_of_char [where ?'a = nat, of "CHR ''1''"]
    char_of_char [where ?'a = nat, of "CHR ''2''"] char_of_char [where ?'a = nat, of "CHR ''3''"]
    char_of_char [where ?'a = nat, of "CHR ''4''"] char_of_char [where ?'a = nat, of "CHR ''5''"]
    char_of_char [where ?'a = nat, of "CHR ''6''"] char_of_char [where ?'a = nat, of "CHR ''7''"]
    char_of_char [where ?'a = nat, of "CHR ''8''"] char_of_char [where ?'a = nat, of "CHR ''9''"]
  by (simp_all add: digit_char_def)

lemmas str_int_eval = str_int_def str_nat_small str_nat_big digit_char_values

lemma str_int_2: "str_int 2 = ''2''"
  by (simp add: str_int_eval)

lemma str_int_1: "str_int 1 = ''1''"
  by (simp add: str_int_eval)

section \<open>The parser loop\<close>

lemma parse_lines_acc:
  "parse_lines ls acc = (case parse_lines ls [] of Inl e \<Rightarrow> Inl e | Inr ps \<Rightarrow> Inr (acc @ ps))"
proof (induction ls arbitrary: acc)
  case Nil
  show ?case by simp
next
  case (Cons l ls)
  show ?case
  proof (cases "length (split_on CHR '':'' l) < 5")
    case True
    then show ?thesis using Cons.IH [of acc] by simp
  next
    case False
    show ?thesis
    proof (cases "py_int (rstrip ''B'' (split_on CHR '':'' l ! 2))")
      case None
      with False show ?thesis by (simp add: Let_def)
    next
      case e: (Some e)
      show ?thesis
      proof (cases "py_int (rstrip ''B'' (split_on CHR '':'' l ! 1))")
        case None
        with False e show ?thesis by (simp add: Let_def)
      next
        case (Some s)
        let ?r = "(split_on CHR '':'' l ! 0, str_int (e - s), rstrip ''B'' (split_on CHR '':'' l ! 1),
                   split_on CHR '':'' l ! 4)"
        have "parse_lines (l # ls) acc = parse_lines ls (acc @ [?r])"
          using False e Some by (simp add: Let_def)
        moreover have "parse_lines (l # ls) [] = parse_lines ls [?r]"
          using False e Some by (simp add: Let_def)
        ultimately show ?thesis
          using Cons.IH [of "acc @ [?r]"] Cons.IH [of "[?r]"]
          by (simp split: sum.splits)
      qed
    qed
  qed
qed

lemma parse_lines_ok:
  "list_all offsets_ok (filter kept ls) \<Longrightarrow> parse_lines ls [] = Inr (map record_of (filter kept ls))"
proof (induction ls)
  case Nil
  show ?case by simp
next
  case (Cons l ls)
  show ?case
  proof (cases "kept l")
    case False
    with Cons show ?thesis by (simp add: kept_def)
  next
    case True
    with Cons.prems have ok: "offsets_ok l" and rest: "list_all offsets_ok (filter kept ls)"
      by simp_all
    from ok obtain s e where s: "py_int (start_field l) = Some s" and e: "py_int (end_field l) = Some e"
      by (auto simp: offsets_ok_def)
    have "parse_lines (l # ls) [] = parse_lines ls [record_of l]"
      using True s e by (simp add: kept_def start_field_def end_field_def record_of_def Let_def)
    also have "\<dots> = Inr ([record_of l] @ map record_of (filter kept ls))"
      using Cons.IH [OF rest] by (subst parse_lines_acc) simp
    finally show ?thesis using True by simp
  qed
qed

lemma parse_lines_bad:
  "\<not> list_all offsets_ok (filter kept ls) \<Longrightarrow>
   \<exists>s. parse_lines ls acc = Inl (IntValueError s) \<and> py_int s = None"
proof (induction ls arbitrary: acc)
  case Nil
  then show ?case by simp
next
  case (Cons l ls)
  show ?case
  proof (cases "kept l")
    case False
    with Cons show ?thesis by (simp add: kept_def)
  next
    case True
    show ?thesis
    proof (cases "offsets_ok l")
      case ok: True
      then obtain s e where s: "py_int (start_field l) = Some s" and e: "py_int (end_field l) = Some e"
        by (auto simp: offsets_ok_def)
      from Cons.prems True ok have "\<not> list_all offsets_ok (filter kept ls)" by simp
      from Cons.IH [OF this] show ?thesis
        using True s e by (simp add: kept_def start_field_def end_field_def Let_def)
    next
      case False
      then show ?thesis using True
        by (auto simp: offsets_ok_def kept_def start_field_def end_field_def Let_def
                 split: option.splits)
    qed
  qed
qed

section \<open>Evaluating the parser on listings\<close>

lemma sample_lines:
  "listing_lines sample_listing =
     [''BYT;'', ''/dev/sda:4096B:scsi:512:512:msdos:ATA Disk:;'',
      ''1:512B:1535B:1024B:fat32::boot;'', ''2:1536B:4095B:2560B:btrfs::;'']"
  by (simp add: listing_lines_def sample_listing_def strip_def isspace_def)

lemmas parser_eval =
  rstrip_def py_int_def int_space_def is_digit_def digit_val_def str_int_eval Let_def

lemma sample_parse:
  "parse_parted_output sample_listing =
     Inr (''4096'', [(''1'', ''1023'', ''512'', ''fat32''), (''2'', ''2559'', ''1536'', ''btrfs'')])"
  by (simp add: parse_parted_output_def sample_lines [unfolded listing_lines_def] parser_eval)

lemma sample_well_formed: "well_formed sample_listing"
  by (simp add: well_formed_def data_lines_def sample_lines kept_def offsets_ok_def
      start_field_def end_field_def parser_eval)

section \<open>The selector loop\<close>

lemma startswith_nonempty: "startswith name (subvolume @ ''.'') \<Longrightarrow> name \<noteq> []"
  by (cases name; cases "subvolume @ ''.''") auto

lemma snapshot_names_Cons:
  "snapshot_names sub (l # ls) =
     (if 9 \<le> length (split_ws l) \<and> startswith (split_ws l ! 8) (sub @ ''.'')
      then split_ws l ! 8 # snapshot_names sub ls else snapshot_names sub ls)"
  by (simp add: snapshot_names_def listed_names_def)

lemma find_newest_None:
  "find_newest sub ls None =
     (if snapshot_names sub ls = [] then None else Some (Max (set (snapshot_names sub ls))))"
  and find_newest_Some:
  "a \<noteq> [] \<Longrightarrow> find_newest sub ls (Some a) = Some (Max (insert a (set (snapshot_names sub ls))))"
proof (induction ls arbitrary: a)
  case Nil
  { case 1 show ?case by (simp add: snapshot_names_def listed_names_def) }
  { case 2 show ?case by (simp add: snapshot_names_def listed_names_def) }
next
  case (Cons l ls)
  let ?name = "split_ws l ! 8"
  let ?hit = "9 \<le> length (split_ws l) \<and> startswith ?name (sub @ ''.'')"
  { case 1
    show ?case
    proof (cases ?hit)
      case False
      then show ?thesis using Cons.IH(1) by (auto simp: snapshot_names_Cons Let_def)
    next
      case True
      then have ne: "?name \<noteq> []" by (blast dest: startswith_nonempty)
      have "find_newest sub (l # ls) None = find_newest sub ls (Some ?name)"
        using True by (simp add: Let_def falsy_def)
      then show ?thesis using True Cons.IH(2) [OF ne] by (simp add: snapshot_names_Cons)
    qed }
  { case 2
    show ?case
    proof (cases ?hit)
      case False
      then show ?thesis using Cons.IH(2) [OF 2] by (auto simp: snapshot_names_Cons Let_def)
    next
      case True
      then have ne: "?name \<noteq> []" by (blast dest: startswith_nonempty)
      show ?thesis
      proof (cases "a < ?name")
        case lt: True
        then have "find_newest sub (l # ls) (Some a) = find_newest sub ls (Some ?name)"
          using True by (simp add: Let_def)
        moreover have "Max (insert a (insert ?name (set (snapshot_names sub ls))))
            = Max (insert ?name (set (snapshot_names sub ls)))"
        proof -
          have "a \<le> Max (insert ?name (set (snapshot_names sub ls)))"
            using lt by (intro order_trans [OF _ Max_ge [of _ ?name]]) auto
          then show ?thesis by (simp add: max_def)
        qed
        ultimately show ?thesis using True Cons.IH(2) [OF ne] by (simp add: snapshot_names_Cons)
      next
        case ge: False
        then have "find_newest sub (l # ls) (Some a) = find_newest sub ls (Some a)"
          using True 2 by (simp add: Let_def falsy_def)
        moreover have "Max (insert a (insert ?name (set (snapshot_names sub ls))))
            = Max (insert a (set (snapshot_names sub ls)))"
        proof -
          have "insert a (insert ?name (set (snapshot_names sub ls)))
            = insert ?name (insert a (set (snapshot_names sub ls)))" by auto
          moreover have "?name \<le> Max (insert a (set (snapshot_names sub ls)))"
            using ge by (intro order_trans [OF _ Max_ge [of _ a]]) auto
          ultimately show ?thesis by (simp add: max_def)
        qed
        ultimately show ?thesis using True Cons.IH(2) [OF 2] by (simp add: snapshot_names_Cons)
      qed
    qed }
qed

lemma Max_nonempty_strings:
  assumes "ns \<noteq> []" "\<forall>n \<in> set ns. n \<noteq> ([] :: string)"
  shows "Max (set ns) \<noteq> []"
proof -
  have "Max (set ns) \<in> set ns" using assms(1) by (intro Max_in) auto
  with assms(2) show ?thesis by blast
qed

section \<open>Steps and traces\<close>

lemma perform_eq: "perform w a tr = (w tr a, after w tr a)"
  by (simp add: perform_def after_def Let_def)

lemma and_then_Inl: "and_then (Inl e, tr) f = (Inl e, tr)"
  by (simp add: and_then_def)

lemma and_then_Inr: "and_then (Inr x, tr) f = f x tr"
  by (simp add: and_then_def)

lemma and_then_if:
  "and_then (if c then a else b, tr) f = (if c then and_then (a, tr) f else and_then (b, tr) f)"
  by simp

lemma run_checked_eq:
  "run_checked w cmd tr =
     (if returncode (w tr (Run cmd)) \<noteq> 0
      then Inl (CalledProcessError (returncode (w tr (Run cmd))) cmd)
      else Inr (w tr (Run cmd)), after w tr (Run cmd))"
  by (simp add: run_checked_def perform_eq)

lemma run_argv_checked_eq:
  "run_argv_checked w argv tr =
     (if returncode (w tr (RunArgv argv)) \<noteq> 0
      then Inl (CalledProcessError (returncode (w tr (RunArgv argv))) (concat argv))
      else Inr (w tr (RunArgv argv)), after w tr (RunArgv argv))"
  by (simp add: run_argv_checked_def perform_eq)

lemma file_op_eq:
  "file_op w a tr =
     (if returncode (w tr a) \<noteq> 0 then Inl (OSError (stderr (w tr a))) else Inr (), after w tr a)"
  by (simp add: file_op_def perform_eq)

lemmas step_eqs = perform_eq run_checked_eq run_argv_checked_eq file_op_eq
  and_then_if and_then_Inl and_then_Inr

lemma prefix_after: "prefix tr (after w tr a)"
  by (simp add: after_def)

lemma prefix_after_trans: "prefix tr tr' \<Longrightarrow> prefix tr (after w tr' a)"
  by (auto simp: after_def prefix_def)

section \<open>Cleanup\<close>

lemma cleanup_eq:
  "cleanup w tr =
     (if returncode (w tr (Run umount_command)) \<noteq> 0
      then (Inl (CalledProcessError (returncode (w tr (Run umount_command))) umount_command),
            after w tr (Run umount_command))
      else if returncode (w (after w tr (Run umount_command)) (Run detach_command)) \<noteq> 0
      then (Inl (CalledProcessError
                   (returncode (w (after w tr (Run umount_command)) (Run detach_command))) detach_command),
            after w (after w tr (Run umount_command)) (Run detach_command))
      else (Inr (),
            after w (after w (after w tr (Run umount_command)) (Run detach_command))
              (ExecCommand umount_command)))"
  by (simp add: cleanup_def step_eqs)

lemma sync_failure:
  "returncode (w tr (RunArgv btrbk_argv)) \<noteq> 0 \<Longrightarrow>
   sync_and_rotate w subvolume tr =
     (Inl (CalledProcessError (returncode (w tr (RunArgv btrbk_argv))) (concat btrbk_argv)),
      after w tr (RunArgv btrbk_argv))"
  by (simp add: sync_and_rotate_def step_eqs)

lemmas command_defs = parted_command_def parted_argv_def loop_device_def losetup_command_def
  mkfs_command_def detach_command_def blkid_command_def mount_point_def config_file_def
  local_mount_command_def remote_mount_command_def btrbk_argv_def umount_command_def
  stat_command_def get_partition_device_def str_int_2 str_int_1

lemmas run_eval = step_eqs after_def actions_def session_world_def command_defs

lemma actions_after: "actions (after w tr a) = actions tr @ [a]"
  by (simp add: actions_def after_def)

lemma sync_and_rotate_prefix:
  "prefix (after w tr (RunArgv btrbk_argv)) (snd (sync_and_rotate w subvolume tr))"
  by (auto simp: sync_and_rotate_def step_eqs Let_def and_then_def
      split: sum.splits intro!: prefix_after_trans)

lemma cleanup_prefix: "prefix tr (snd (cleanup w tr))"
  by (auto simp: cleanup_eq intro!: prefix_after_trans)

lemma run_backup_after_mount:
  "mount_stage w device output_file subvolume tr = (Inr (), tr1) \<Longrightarrow>
   snd (run_backup w device output_file subvolume tr) =
     snd (cleanup w (snd (sync_and_rotate w subvolume tr1)))"
  by (simp add: run_backup_def and_then_Inr split: prod.splits)

lemma run_backup_mount_error:
  "mount_stage w device output_file subvolume tr = (Inl e, tr1) \<Longrightarrow>
   run_backup w device output_file subvolume tr = (Inl e, tr1)"
  by (simp add: run_backup_def and_then_Inl)

section \<open>The receive loop\<close>

lemma copy_stream_done: "take 1024 pending = [] \<Longrightarrow> copy_stream w output_file pending tr = (Inr (), tr)"
  by (subst copy_stream.simps) simp

lemma copy_stream_step:
  "take 1024 pending \<noteq> [] \<Longrightarrow>
   copy_stream w output_file pending tr =
     (if returncode (w tr (WriteData output_file (take 1024 pending))) \<noteq> 0
      then (Inl (OSError (stderr (w tr (WriteData output_file (take 1024 pending))))),
            after w tr (WriteData output_file (take 1024 pending)))
      else copy_stream w output_file (drop 1024 pending)
             (after w tr (WriteData output_file (take 1024 pending))))"
  by (subst copy_stream.simps) (simp add: file_op_eq Let_def)

lemma copy_stream_cases [case_names exhausted write_failed write_ok]:
  assumes "\<And>w output_file pending tr. take 1024 pending = [] \<Longrightarrow> P w output_file pending tr"
    and "\<And>w output_file pending tr.
           take 1024 pending \<noteq> [] \<Longrightarrow>
           returncode (w tr (WriteData output_file (take 1024 pending))) \<noteq> 0 \<Longrightarrow>
           P w output_file pending tr"
    and "\<And>w output_file pending tr.
           take 1024 pending \<noteq> [] \<Longrightarrow>
           returncode (w tr (WriteData output_file (take 1024 pending))) = 0 \<Longrightarrow>
           P w output_file (drop 1024 pending) (after w tr (WriteData output_file (take 1024 pending))) \<Longrightarrow>
           P w output_file pending tr"
  shows "P w output_file pending tr"
proof (induction w output_file pending tr rule: copy_stream.induct)
  case (1 w output_file pending tr)
  show ?case
  proof (cases "take 1024 pending = []")
    case True
    then show ?thesis by (rule assms(1))
  next
    case False
    show ?thesis
    proof (cases "returncode (w tr (WriteData output_file (take 1024 pending))) = 0")
      case True
      have "P w output_file (drop 1024 pending) (after w tr (WriteData output_file (take 1024 pending)))"
        using 1 [of "take 1024 pending" "Inr ()" "after w tr (WriteData output_file (take 1024 pending))" "()"]
          False True
        by (simp add: file_op_eq)
      with False True show ?thesis by (rule assms(3))
    next
      case bad: False
      with False show ?thesis by (rule assms(2))
    qed
  qed
qed

lemma copy_stream_prefix: "prefix tr (snd (copy_stream w output_file pending tr))"
proof (induction w output_file pending tr rule: copy_stream_cases)
  case (exhausted w output_file pending tr)
  then show ?case by (simp add: copy_stream_done)
next
  case (write_failed w output_file pending tr)
  then show ?case by (simp add: copy_stream_step prefix_after)
next
  case (write_ok w output_file pending tr)
  then show ?case
    using prefix_order.trans [OF prefix_after [of tr w "WriteData output_file (take 1024 pending)"]]
    by (simp add: copy_stream_step)
qed

lemma copy_stream_actions:
  "set (actions (snd (copy_stream w output_file pending tr)))
     \<subseteq> set (actions tr) \<union> range (WriteData output_file)"
proof (induction w output_file pending tr rule: copy_stream_cases)
  case (exhausted w output_file pending tr)
  then show ?case by (simp add: copy_stream_done)
next
  case (write_failed w output_file pending tr)
  then show ?case by (auto simp: copy_stream_step actions_after)
next
  case (write_ok w output_file pending tr)
  then show ?case by (auto simp: copy_stream_step actions_after)
qed

text \<open>If no write fails, the loop writes exactly the stream it receives.\<close>

lemma copy_stream_written:
  "fst (copy_stream w output_file pending tr) = Inr () \<Longrightarrow>
   written output_file (snd (copy_stream w output_file pending tr)) = written output_file tr @ pending"
proof (induction w output_file pending tr rule: copy_stream_cases)
  case (exhausted w output_file pending tr)
  then show ?case by (simp add: copy_stream_done)
next
  case (write_failed w output_file pending tr)
  then show ?case by (simp add: copy_stream_step)
next
  case (write_ok w output_file pending tr)
  let ?a = "WriteData output_file (take 1024 pending)"
  have step: "copy_stream w output_file pending tr
      = copy_stream w output_file (drop 1024 pending) (after w tr ?a)"
    using write_ok(1,2) by (simp add: copy_stream_step)
  have "written output_file (after w tr ?a) = written output_file tr @ take 1024 pending"
    by (simp add: written_def after_def)
  then show ?case using write_ok(3,4) step by simp
qed

section \<open>The last step of the initializer\<close>

lemma detach_not_losetup: "detach_command \<noteq> losetup_command output_file"
  by (simp add: detach_command_def losetup_command_def loop_device_def)

lemma detach_not_mkfs: "detach_command \<noteq> mkfs_command uuid"
  by (simp add: detach_command_def mkfs_command_def)

lemma make_filesystem_eq:
  "make_filesystem w uuid output_file tr =
     (let l = w tr (Run (losetup_command output_file));
          tr1 = after w tr (Run (losetup_command output_file));
          k = w tr1 (Run (mkfs_command uuid));
          tr2 = after w tr1 (Run (mkfs_command uuid));
          d = w tr2 (Run detach_command);
          tr3 = after w tr2 (Run detach_command)
      in if returncode l \<noteq> 0 then (Inl (CalledProcessError (returncode l) (losetup_command output_file)), tr1)
         else if returncode k \<noteq> 0 then (Inl (CalledProcessError (returncode k) (mkfs_command uuid)), tr2)
         else if returncode d \<noteq> 0 then (Inl (CalledProcessError (returncode d) detach_command), tr3)
         else (Inr (), tr3))"
  by (simp add: make_filesystem_def step_eqs Let_def)

lemma make_filesystem_prefix: "prefix tr (snd (make_filesystem w uuid output_file tr))"
  by (auto simp: make_filesystem_eq Let_def intro!: prefix_after_trans)

lemma make_filesystem_mkfs:
  "returncode (w t (Run (losetup_command output_file))) = 0 \<Longrightarrow>
   prefix (after w (after w t (Run (losetup_command output_file)))
             (Run (''mkfs.btrfs --uuid '' @ uuid @ '' /dev/loop0p2'')))
     (snd (make_filesystem w uuid output_file t))"
  by (auto simp: make_filesystem_eq Let_def mkfs_command_def loop_device_def intro!: prefix_after_trans)

lemma make_filesystem_detach:
  assumes "Run detach_command \<notin> set (actions tr)"
  shows "Run detach_command \<in> set (actions (snd (make_filesystem w uuid output_file tr))) \<longleftrightarrow>
         fst (make_filesystem w uuid output_file tr) = Inr () \<or>
         (\<exists>rc. fst (make_filesystem w uuid output_file tr) = Inl (CalledProcessError rc detach_command))"
  using assms detach_not_losetup [of output_file] detach_not_mkfs [of uuid]
  by (auto simp: make_filesystem_eq Let_def actions_after)

section \<open>The detach command in a run of the initializer\<close>

lemma copy_stream_no_detach:
  "Run detach_command \<notin> set (actions tr) \<Longrightarrow>
   Run detach_command \<notin> set (actions (snd (copy_stream w output_file pending tr)))"
  using copy_stream_actions [of w output_file pending tr] by auto

lemma copy_stream_error:
  "fst (copy_stream w output_file pending tr) = Inl e \<Longrightarrow> \<exists>m. e = OSError m"
proof (induction w output_file pending tr rule: copy_stream_cases)
  case (exhausted w output_file pending tr)
  then show ?case by (simp add: copy_stream_done)
next
  case (write_failed w output_file pending tr)
  then show ?case by (auto simp: copy_stream_step)
next
  case (write_ok w output_file pending tr)
  then show ?case by (simp add: copy_stream_step)
qed

lemma offset_error:
  "get_btrfs_partition_offset partitions = Inl e \<Longrightarrow> \<forall>rc c. e \<noteq> CalledProcessError rc c"
  by (auto simp: get_btrfs_partition_offset_def split: option.splits)

lemma parse_error:
  "parse_parted_output output = Inl e \<Longrightarrow> \<forall>rc c. e \<noteq> CalledProcessError rc c"
proof -
  have pl: "parse_lines ls acc = Inl e \<Longrightarrow> \<forall>rc c. e \<noteq> CalledProcessError rc c" for ls acc
    by (induction ls arbitrary: acc) (auto simp: Let_def split: if_splits option.splits)
  assume "parse_parted_output output = Inl e"
  then show ?thesis using pl
    by (auto simp: parse_parted_output_def Let_def split: if_splits sum.splits)
qed

lemma and_then_settled:
  assumes "quiet r" and "\<And>x t. r = (Inr x, t) \<Longrightarrow> settled (f x t)"
  shows "settled (and_then r f)"
proof (cases r)
  case (Pair a t)
  show ?thesis
  proof (cases a)
    case (Inl e)
    with Pair assms(1) show ?thesis by (auto simp: and_then_Inl quiet_def settled_def)
  next
    case (Inr x)
    with Pair assms(2) show ?thesis by (simp add: and_then_Inr)
  qed
qed

lemma settled_error:
  "Run detach_command \<notin> set (actions t) \<Longrightarrow> \<forall>rc. e \<noteq> CalledProcessError rc detach_command \<Longrightarrow>
   settled (Inl e, t)"
  by (simp add: settled_def)

lemma create_initial_image_settled:
  assumes fresh: "Run detach_command \<notin> set (actions tr)"
  shows "settled (create_initial_image w device output_file tr)"
  unfolding create_initial_image_def
proof (rule and_then_settled, goal_cases)
  case 1
  show ?case using fresh parse_error
    by (auto simp: quiet_def get_partitions_ssh_def perform_eq actions_after)
next
  case (2 g tr1)
  obtain disk_size partitions where g: "g = (disk_size, partitions)" by (cases g)
  from 2 have f1: "Run detach_command \<notin> set (actions tr1)"
    using fresh by (auto simp: get_partitions_ssh_def perform_eq actions_after)
  let ?tr2 = "after w tr1 (ExecCommand (blkid_command device))"
  let ?uuid = "strip (stdout (w tr1 (ExecCommand (blkid_command device))))"
  let ?tr3 = "after w ?tr2 (ExecCommand (''mount -o remount,ro '' @ get_partition_device device (str_int 1)))"
  have f3: "Run detach_command \<notin> set (actions ?tr3)" using f1 by (simp add: actions_after)
  have rest: "settled
     (and_then (file_op w (OpenFile output_file ''wb'') ?tr3) (\<lambda>_ tr4.
      and_then (to_int disk_size tr4) (\<lambda>n tr5.
      and_then (file_op w (Truncate output_file n) tr5) (\<lambda>_ tr6.
      and_then (get_btrfs_partition_offset partitions, tr6) (\<lambda>btrfs_start tr7.
        (let (dd, tr8) = perform w (ExecCommand (copy_command device btrfs_start)) tr7
         in and_then (file_op w (OpenFile output_file ''r+b'') tr8) (\<lambda>_ tr9.
            and_then (copy_stream w output_file (stdout dd) tr9) (\<lambda>_ tr10.
              make_filesystem w ?uuid output_file tr10))))))))"
  proof (rule and_then_settled, goal_cases)
    case 1
    show ?case using f3 by (auto simp: quiet_def file_op_eq actions_after)
  next
    case (2 x4 tr4)
    then have f4: "Run detach_command \<notin> set (actions tr4)"
      using f3 by (auto simp: file_op_eq actions_after split: if_splits)
    show ?case
    proof (rule and_then_settled, goal_cases)
      case 1
      show ?case using f4 by (auto simp: quiet_def to_int_def split: option.splits)
    next
      case (2 n tr5)
      then have f5: "Run detach_command \<notin> set (actions tr5)"
        using f4 by (auto simp: to_int_def split: option.splits)
      show ?case
      proof (rule and_then_settled, goal_cases)
        case 1
        show ?case using f5 by (auto simp: quiet_def file_op_eq actions_after)
      next
        case (2 x6 tr6)
        then have f6: "Run detach_command \<notin> set (actions tr6)"
          using f5 by (auto simp: file_op_eq actions_after split: if_splits)
        show ?case
        proof (rule and_then_settled, goal_cases)
          case 1
          show ?case using f6 offset_error [of partitions] by (auto simp: quiet_def)
        next
          case (2 btrfs_start tr7)
          then have f7: "Run detach_command \<notin> set (actions tr7)" using f6 by simp
          let ?tr8 = "after w tr7 (ExecCommand (copy_command device btrfs_start))"
          let ?dd = "w tr7 (ExecCommand (copy_command device btrfs_start))"
          have f8: "Run detach_command \<notin> set (actions ?tr8)" using f7 by (simp add: actions_after)
          have "settled (and_then (file_op w (OpenFile output_file ''r+b'') ?tr8) (\<lambda>_ tr9.
                  and_then (copy_stream w output_file (stdout ?dd) tr9) (\<lambda>_ tr10.
                    make_filesystem w ?uuid output_file tr10)))"
          proof (rule and_then_settled, goal_cases)
            case 1
            show ?case using f8 by (auto simp: quiet_def file_op_eq actions_after)
          next
            case (2 x9 tr9)
            then have f9: "Run detach_command \<notin> set (actions tr9)"
              using f8 by (auto simp: file_op_eq actions_after split: if_splits)
            show ?case
            proof (rule and_then_settled, goal_cases)
              case 1
              show ?case using copy_stream_no_detach [OF f9] copy_stream_error
                by (fastforce simp: quiet_def)
            next
              case (2 x10 tr10)
              then have "tr10 = snd (copy_stream w output_file (stdout ?dd) tr9)" by simp
              then have "Run detach_command \<notin> set (actions tr10)"
                using copy_stream_no_detach [OF f9] by simp
              then show ?case unfolding settled_def by (rule make_filesystem_detach)
            qed
          qed
          then show ?case by (simp add: perform_eq)
        qed
      qed
    qed
  qed
  show ?case
    using f1 rest
    by (simp add: g perform_eq Let_def settled_error actions_after)
qed

section \<open>Traces only grow\<close>

lemma and_then_grows:
  assumes "prefix p (snd r)" and "\<And>x t. r = (Inr x, t) \<Longrightarrow> prefix p (snd (f x t))"
  shows "prefix p (snd (and_then r f))"
proof (cases r)
  case (Pair a t)
  show ?thesis
  proof (cases a)
    case (Inl e)
    with Pair assms(1) show ?thesis by (simp add: and_then_Inl)
  next
    case (Inr x)
    with Pair assms(2) show ?thesis by (simp add: and_then_Inr)
  qed
qed

lemma file_op_grows: "prefix p tr \<Longrightarrow> prefix p (snd (file_op w a tr))"
  by (simp add: file_op_eq prefix_after_trans)

lemma file_op_trace: "file_op w a tr = (r, t) \<Longrightarrow> t = after w tr a"
  by (simp add: file_op_eq)

lemma to_int_trace: "to_int s tr = (r, t) \<Longrightarrow> t = tr"
  by (simp add: to_int_def split: option.splits)

lemma copy_stream_grows: "prefix p tr \<Longrightarrow> prefix p (snd (copy_stream w output_file pending tr))"
  using copy_stream_prefix prefix_order.trans by blast

lemma make_filesystem_grows: "prefix p tr \<Longrightarrow> prefix p (snd (make_filesystem w uuid output_file tr))"
  using make_filesystem_prefix prefix_order.trans by blast

lemma initializer_reads_uuid_first:
  assumes probe: "get_partitions_ssh w device tr = (Inr (disk_size, partitions), tr1)"
    and some: "partitions \<noteq> []"
  shows "prefix (after w tr1 (ExecCommand (blkid_command device)))
           (snd (create_initial_image w device output_file tr))"
proof -
  let ?p = "after w tr1 (ExecCommand (blkid_command device))"
  let ?uuid = "strip (stdout (w tr1 (ExecCommand (blkid_command device))))"
  let ?tr3 = "after w ?p (ExecCommand (''mount -o remount,ro '' @ get_partition_device device (str_int 1)))"
  have p3: "prefix ?p ?tr3" by (rule prefix_after)
  have rest: "prefix ?p (snd
     (and_then (file_op w (OpenFile output_file ''wb'') ?tr3) (\<lambda>_ tr4.
      and_then (to_int disk_size tr4) (\<lambda>n tr5.
      and_then (file_op w (Truncate output_file n) tr5) (\<lambda>_ tr6.
      and_then (get_btrfs_partition_offset partitions, tr6) (\<lambda>btrfs_start tr7.
        (let (dd, tr8) = perform w (ExecCommand (copy_command device btrfs_start)) tr7
         in and_then (file_op w (OpenFile output_file ''r+b'') tr8) (\<lambda>_ tr9.
            and_then (copy_stream w output_file (stdout dd) tr9) (\<lambda>_ tr10.
              make_filesystem w ?uuid output_file tr10)))))))))"
  proof (rule and_then_grows, goal_cases)
    case 1
    show ?case using p3 by (rule file_op_grows)
  next
    case (2 x4 tr4)
    then have p4: "prefix ?p tr4" using p3 by (auto dest!: file_op_trace intro: prefix_after_trans)
    show ?case
    proof (rule and_then_grows, goal_cases)
      case 1
      show ?case using p4 by (simp add: to_int_def split: option.splits)
    next
      case (2 n tr5)
      then have p5: "prefix ?p tr5" using p4 by (auto dest!: to_int_trace)
      show ?case
      proof (rule and_then_grows, goal_cases)
        case 1
        show ?case using p5 by (rule file_op_grows)
      next
        case (2 x6 tr6)
        then have p6: "prefix ?p tr6" using p5 by (auto dest!: file_op_trace intro: prefix_after_trans)
        show ?case
        proof (rule and_then_grows, goal_cases)
          case 1
          show ?case using p6 by simp
        next
          case (2 btrfs_start tr7)
          then have p7: "prefix ?p tr7" using p6 by simp
          let ?tr8 = "after w tr7 (ExecCommand (copy_command device btrfs_start))"
          let ?dd = "w tr7 (ExecCommand (copy_command device btrfs_start))"
          have p8: "prefix ?p ?tr8" using p7 by (rule prefix_after_trans)
          have "prefix ?p (snd (and_then (file_op w (OpenFile output_file ''r+b'') ?tr8) (\<lambda>_ tr9.
                  and_then (copy_stream w output_file (stdout ?dd) tr9) (\<lambda>_ tr10.
                    make_filesystem w ?uuid output_file tr10))))"
          proof (rule and_then_grows, goal_cases)
            case 1
            show ?case using p8 by (rule file_op_grows)
          next
            case (2 x9 tr9)
            then have p9: "prefix ?p tr9" using p8 by (auto dest!: file_op_trace intro: prefix_after_trans)
            show ?case
            proof (rule and_then_grows, goal_cases)
              case 1
              show ?case using p9 by (rule copy_stream_grows)
            next
              case (2 x10 tr10)
              then have "tr10 = snd (copy_stream w output_file (stdout ?dd) tr9)" by simp
              then have "prefix ?p tr10" using copy_stream_grows [OF p9] by simp
              then show ?case by (rule make_filesystem_grows)
            qed
          qed
          then show ?case by (simp add: perform_eq)
        qed
      qed
    qed
  qed
  show ?thesis
    using probe some rest
    by (simp add: create_initial_image_def and_then_Inr perform_eq Let_def)
qed

lemma first_btrfs_find:
  "first_btrfs partitions = List.find (\<lambda>part. snd (snd (snd part)) = ''btrfs'') partitions"
  by (induction partitions) auto

section \<open>Evaluating runs in the example environments\<close>

lemma copy_one_chunk:
  "length data = 1024 \<Longrightarrow>
   copy_stream w output_file data tr =
     (if returncode (w tr (WriteData output_file data)) \<noteq> 0
      then (Inl (OSError (stderr (w tr (WriteData output_file data)))), after w tr (WriteData output_file data))
      else (Inr (), after w tr (WriteData output_file data)))"
proof -
  assume len: "length data = 1024"
  then have ne: "take 1024 data \<noteq> []" by auto
  from len have "copy_stream w output_file (drop 1024 data) t = (Inr (), t)" for t
    by (simp add: copy_stream_done)
  with ne len show ?thesis by (simp add: copy_stream_step)
qed

lemma disk_chunk: "length (take 1024 disk_bytes) = 1024"
  by (simp add: disk_bytes_def)

lemma sample_offset:
  "get_btrfs_partition_offset [(''1'', ''1023'', ''512'', ''fat32''), (''2'', ''2559'', ''1536'', ''btrfs'')]
     = Inr 1536"
  by (simp add: get_btrfs_partition_offset_def parser_eval)

lemma sample_copy_command: "copy_command ''/dev/sda'' 1536 = ''dd if=/dev/sda bs=1K count=1''"
  by (simp add: copy_command_def str_int_eval)

lemma sample_uuid: "strip ''0f3a\<newline>'' = ''0f3a''"
  by (simp add: strip_def isspace_def)

lemmas initializer_eval = create_initial_image_def get_partitions_ssh_def make_filesystem_def
  to_int_def sample_parse sample_offset sample_copy_command sample_uuid
  copy_one_chunk [OF disk_chunk] parser_eval run_eval

section \<open>The first action of a backup\<close>



lemmas session_eval = run_backup_def mount_stage_def sync_and_rotate_def cleanup_def
  get_partitions_local_def sample_parse run_eval

lemma example_stdout:
  "split_on (CHR 0x0A) (strip (concat (map (\<lambda>l. l @ [CHR 0x0A]) example_lines))) = example_lines"
  by (simp add: example_lines_def strip_def isspace_def)

lemma example_selected: "select_snapshot ''@'' example_lines = Inr ''@.20250831T0152''"
  by (simp add: select_snapshot_def example_lines_def split_ws_def isspace_def falsy_def Let_def)

lemma prefix_last_mem: "prefix (after w tr a) tr' \<Longrightarrow> a \<in> set (actions tr')"
  by (auto simp: prefix_def after_def actions_def)

section \<open>C1: cleanup after a failed sync or rotation\<close>

text \<open>
  C1 as stated fails: in a session whose sync engine exits non-zero and whose local
  unmount then fails too, the \<open>finally\<close> block stops at the unmount. The loop detach
  and the remote unmount are never attempted, and the error that leaves
  \<open>run_backup\<close> is the unmount's, not the sync engine's.
\<close>

theorem cleanup_counterexample:
  "returncode (session_world [RunArgv btrbk_argv, Run umount_command] [] (RunArgv btrbk_argv)) = 1 \<and>
   fst (run_backup (session_world [RunArgv btrbk_argv, Run umount_command]) ''/dev/sda'' ''backup.img'' ''@'' [])
     = Inl (CalledProcessError 1 ''umount /mnt'') \<and>
   actions (snd (run_backup (session_world [RunArgv btrbk_argv, Run umount_command])
                   ''/dev/sda'' ''backup.img'' ''@'' []))
     = [RunArgv [''parted'', ''--machine'', ''backup.img'', ''unit'', ''B'', ''print''],
        Run ''losetup /dev/loop0 --partscan backup.img'',
        Run ''mount /dev/loop0p2 -o subvolid=5 /mnt'',
        ExecCommand ''mount /dev/sda2 -o subvolid=5 /mnt'',
        Print [],
        GetPeerName,
        OpenFile ''/tmp/btrbk.conf'' ''w'',
        WriteData ''/tmp/btrbk.conf'' (btrbk_config ''192.0.2.7'' ''@''),
        RunArgv [''btrbk'', ''--config'', ''/tmp/btrbk.conf'', ''--format=raw'', ''run''],
        Run ''umount /mnt'']"
  by (simp add: run_backup_def mount_stage_def sync_and_rotate_def cleanup_def
      get_partitions_local_def sample_parse run_eval)

text \<open>
  C1, amended. For every backup session that reaches the sync engine, whatever the
  outcome of the sync engine and of the rotation (in particular when the sync engine
  exits non-zero, which raises at once), the cleanup stage runs before anything leaves
  \<open>run_backup\<close>: the local unmount is always attempted; the loop detach is attempted
  only if the local unmount succeeded; the remote unmount is issued only if both
  succeeded. The outcome of the body (the original error, if there is one) stands only
  when both local release steps succeeded; otherwise the error of the failing release
  step replaces it.
\<close>

theorem cleanup_after_failure:
  fixes w :: world
  assumes mounted: "mount_stage w device output_file subvolume tr = (Inr (), tr1)"
    and outcome: "sync_and_rotate w subvolume tr1 = (r, tr2)"
  defines "u \<equiv> w tr2 (Run umount_command)"
    and "tr3 \<equiv> after w tr2 (Run umount_command)"
  defines "d \<equiv> w tr3 (Run detach_command)"
    and "tr4 \<equiv> after w tr3 (Run detach_command)"
  shows "run_backup w device output_file subvolume tr =
           (if returncode u \<noteq> 0 then (Inl (CalledProcessError (returncode u) umount_command), tr3)
            else if returncode d \<noteq> 0 then (Inl (CalledProcessError (returncode d) detach_command), tr4)
            else (r, after w tr4 (ExecCommand umount_command))) \<and>
         (returncode (w tr1 (RunArgv btrbk_argv)) \<noteq> 0 \<longrightarrow>
            r = Inl (CalledProcessError (returncode (w tr1 (RunArgv btrbk_argv))) (concat btrbk_argv)) \<and>
            tr2 = after w tr1 (RunArgv btrbk_argv))"
proof -
  have "run_backup w device output_file subvolume tr =
      (let (c, t) = cleanup w tr2 in (case c of Inl e \<Rightarrow> Inl e | Inr _ \<Rightarrow> r, t))"
    using mounted outcome by (simp add: run_backup_def and_then_Inr)
  then have a: "run_backup w device output_file subvolume tr =
           (if returncode u \<noteq> 0 then (Inl (CalledProcessError (returncode u) umount_command), tr3)
            else if returncode d \<noteq> 0 then (Inl (CalledProcessError (returncode d) detach_command), tr4)
            else (r, after w tr4 (ExecCommand umount_command)))"
    by (simp add: cleanup_eq u_def d_def tr3_def tr4_def)
  have b: "r = Inl (CalledProcessError (returncode (w tr1 (RunArgv btrbk_argv))) (concat btrbk_argv)) \<and>
            tr2 = after w tr1 (RunArgv btrbk_argv)"
    if "returncode (w tr1 (RunArgv btrbk_argv)) \<noteq> 0"
    using sync_failure [of w tr1 subvolume] that outcome by simp
  from a b show ?thesis by blast
qed

theorem cleanup_after_failure_witness:
  "fst (mount_stage (session_world [RunArgv btrbk_argv]) ''/dev/sda'' ''backup.img'' ''@'' []) = Inr () \<and>
   returncode (session_world [RunArgv btrbk_argv]
       (snd (mount_stage (session_world [RunArgv btrbk_argv]) ''/dev/sda'' ''backup.img'' ''@'' []))
       (RunArgv btrbk_argv)) = 1 \<and>
   fst (run_backup (session_world [RunArgv btrbk_argv]) ''/dev/sda'' ''backup.img'' ''@'' [])
     = Inl (CalledProcessError 1 (concat btrbk_argv)) \<and>
   actions (snd (run_backup (session_world [RunArgv btrbk_argv]) ''/dev/sda'' ''backup.img'' ''@'' []))
     = actions (snd (mount_stage (session_world [RunArgv btrbk_argv]) ''/dev/sda'' ''backup.img'' ''@'' []))
       @ [RunArgv btrbk_argv, Run umount_command, Run detach_command, ExecCommand umount_command]"
proof -
  let ?w = "session_world [RunArgv btrbk_argv]"
  let ?tr1 = "snd (mount_stage ?w ''/dev/sda'' ''backup.img'' ''@'' [])"
  have ok: "fst (mount_stage ?w ''/dev/sda'' ''backup.img'' ''@'' []) = Inr ()"
    by (simp add: session_eval)
  then have m: "mount_stage ?w ''/dev/sda'' ''backup.img'' ''@'' [] = (Inr (), ?tr1)"
    by (simp add: prod_eq_iff)
  have rc: "returncode (?w ?tr1 (RunArgv btrbk_argv)) = 1"
    by (simp add: session_world_def)
  then have f: "sync_and_rotate ?w ''@'' ?tr1
      = (Inl (CalledProcessError 1 (concat btrbk_argv)), after ?w ?tr1 (RunArgv btrbk_argv))"
    using sync_failure [of ?w ?tr1 "''@''"] by simp
  have u: "returncode (?w t (Run umount_command)) = 0" "returncode (?w t (Run detach_command)) = 0" for t
    by (simp_all add: session_world_def)
  from cleanup_after_failure [OF m f] u
  have "run_backup ?w ''/dev/sda'' ''backup.img'' ''@'' [] =
      (Inl (CalledProcessError 1 (concat btrbk_argv)),
       after ?w (after ?w (after ?w (after ?w ?tr1 (RunArgv btrbk_argv)) (Run umount_command))
         (Run detach_command)) (ExecCommand umount_command))"
    by simp
  with ok rc show ?thesis by (simp add: actions_after)
qed

section \<open>C2: failures while mounting\<close>

text \<open>
  C2 as stated fails: when the local mount fails, \<open>run_backup\<close> raises at once and
  no release step runs, not even the detach of the loop device it has just bound; and
  when the remote mount fails, nothing notices and the session goes on to the sync
  engine.
\<close>

theorem mount_failure_counterexample:
  "returncode (session_world [Run local_mount_command] [] (Run local_mount_command)) = 1 \<and>
   fst (run_backup (session_world [Run local_mount_command]) ''/dev/sda'' ''backup.img'' ''@'' [])
     = Inl (CalledProcessError 1 ''mount /dev/loop0p2 -o subvolid=5 /mnt'') \<and>
   actions (snd (run_backup (session_world [Run local_mount_command]) ''/dev/sda'' ''backup.img'' ''@'' []))
     = [RunArgv [''parted'', ''--machine'', ''backup.img'', ''unit'', ''B'', ''print''],
        Run ''losetup /dev/loop0 --partscan backup.img'',
        Run ''mount /dev/loop0p2 -o subvolid=5 /mnt''] \<and>
   returncode (session_world [ExecCommand (remote_mount_command ''/dev/sda'')] []
                 (ExecCommand ''mount /dev/sda2 -o subvolid=5 /mnt'')) = 1 \<and>
   RunArgv [''btrbk'', ''--config'', ''/tmp/btrbk.conf'', ''--format=raw'', ''run'']
     \<in> set (actions (snd (run_backup (session_world [ExecCommand (remote_mount_command ''/dev/sda'')])
                              ''/dev/sda'' ''backup.img'' ''@'' [])))"
  by (simp add: session_eval example_stdout [simplified] example_selected)

text \<open>
  C2, amended. For every backup session whose probe of the image succeeded: if the
  loop-device bind fails, or the bind succeeds and the local mount fails, the session
  does not proceed to SYNC; \<open>run_backup\<close> raises that command's error at once, and
  its trace ends with the failed command. A failure of the remote mount is not
  detected: whatever its exit status, its error stream is printed and, once the
  configuration file is written, the session proceeds to SYNC.
\<close>

theorem mount_failure_skips_cleanup:
  fixes w :: world and device output_file subvolume :: string and tr :: trace
  assumes probe: "get_partitions_local w output_file tr = (Inr geometry, tr1)"
  defines "l \<equiv> w tr1 (Run (losetup_command output_file))"
    and "tr2 \<equiv> after w tr1 (Run (losetup_command output_file))"
  defines "m \<equiv> w tr2 (Run local_mount_command)"
    and "tr3 \<equiv> after w tr2 (Run local_mount_command)"
  defines "r \<equiv> w tr3 (ExecCommand (remote_mount_command device))"
    and "tr4 \<equiv> after w tr3 (ExecCommand (remote_mount_command device))"
  defines "tr5 \<equiv> after w tr4 (Print (stderr r))"
  defines "tr6 \<equiv> after w tr5 GetPeerName"
  defines "tr7 \<equiv> after w tr6 (OpenFile config_file ''w'')"
  defines "tr8 \<equiv> after w tr7 (WriteData config_file (btrbk_config (stdout (w tr5 GetPeerName)) subvolume))"
  shows "(returncode l \<noteq> 0 \<longrightarrow>
            run_backup w device output_file subvolume tr =
              (Inl (CalledProcessError (returncode l) (losetup_command output_file)), tr2)) \<and>
         (returncode l = 0 \<and> returncode m \<noteq> 0 \<longrightarrow>
            run_backup w device output_file subvolume tr =
              (Inl (CalledProcessError (returncode m) local_mount_command), tr3)) \<and>
         (returncode l = 0 \<and> returncode m = 0 \<and>
          returncode (w tr6 (OpenFile config_file ''w'')) = 0 \<and>
          returncode (w tr7 (WriteData config_file (btrbk_config (stdout (w tr5 GetPeerName)) subvolume))) = 0 \<longrightarrow>
            mount_stage w device output_file subvolume tr = (Inr (), tr8) \<and>
            prefix (after w tr8 (RunArgv btrbk_argv)) (snd (run_backup w device output_file subvolume tr)))"
proof (intro conjI impI)
  assume "returncode l \<noteq> 0"
  then have "mount_stage w device output_file subvolume tr =
      (Inl (CalledProcessError (returncode l) (losetup_command output_file)), tr2)"
    using probe by (cases geometry) (simp add: mount_stage_def step_eqs l_def tr2_def)
  then show "run_backup w device output_file subvolume tr =
      (Inl (CalledProcessError (returncode l) (losetup_command output_file)), tr2)"
    by (rule run_backup_mount_error)
next
  assume "returncode l = 0 \<and> returncode m \<noteq> 0"
  then have "mount_stage w device output_file subvolume tr =
      (Inl (CalledProcessError (returncode m) local_mount_command), tr3)"
    using probe by (cases geometry) (simp add: mount_stage_def step_eqs l_def tr2_def m_def tr3_def)
  then show "run_backup w device output_file subvolume tr =
      (Inl (CalledProcessError (returncode m) local_mount_command), tr3)"
    by (rule run_backup_mount_error)
next
  assume ok: "returncode l = 0 \<and> returncode m = 0 \<and>
          returncode (w tr6 (OpenFile config_file ''w'')) = 0 \<and>
          returncode (w tr7 (WriteData config_file (btrbk_config (stdout (w tr5 GetPeerName)) subvolume))) = 0"
  then show ms: "mount_stage w device output_file subvolume tr = (Inr (), tr8)"
    using probe
    by (cases geometry)
       (simp add: mount_stage_def step_eqs l_def tr2_def m_def tr3_def r_def tr4_def tr5_def
          tr6_def tr7_def tr8_def)
  have "prefix (after w tr8 (RunArgv btrbk_argv)) (snd (sync_and_rotate w subvolume tr8))"
    by (rule sync_and_rotate_prefix)
  also have "prefix \<dots> (snd (cleanup w (snd (sync_and_rotate w subvolume tr8))))"
    by (rule cleanup_prefix)
  finally show "prefix (after w tr8 (RunArgv btrbk_argv)) (snd (run_backup w device output_file subvolume tr))"
    by (simp add: run_backup_after_mount [OF ms])
qed

theorem mount_failure_skips_cleanup_witness:
  "get_partitions_local (session_world [Run local_mount_command]) ''backup.img'' []
     = (Inr (''4096'', [(''1'', ''1023'', ''512'', ''fat32''), (''2'', ''2559'', ''1536'', ''btrfs'')]),
        [(RunArgv (parted_argv ''backup.img''), \<lparr>returncode = 0, stdout = sample_listing, stderr = []\<rparr>)]) \<and>
   run_backup (session_world [Run local_mount_command]) ''/dev/sda'' ''backup.img'' ''@'' []
     = (Inl (CalledProcessError 1 local_mount_command),
        [(RunArgv (parted_argv ''backup.img''), \<lparr>returncode = 0, stdout = sample_listing, stderr = []\<rparr>),
         (Run (losetup_command ''backup.img''), \<lparr>returncode = 0, stdout = [], stderr = []\<rparr>),
         (Run local_mount_command, \<lparr>returncode = 1, stdout = [], stderr = ''failed''\<rparr>)]) \<and>
   RunArgv btrbk_argv
     \<in> set (actions (snd (run_backup (session_world [ExecCommand (remote_mount_command ''/dev/sda'')])
                              ''/dev/sda'' ''backup.img'' ''@'' [])))"
proof -
  let ?w = "session_world [Run local_mount_command]"
  let ?v = "session_world [ExecCommand (remote_mount_command ''/dev/sda'')]"
  let ?g = "(''4096'', [(''1'', ''1023'', ''512'', ''fat32''), (''2'', ''2559'', ''1536'', ''btrfs'')])"
  let ?tr1 = "[(RunArgv (parted_argv ''backup.img''), \<lparr>returncode = 0, stdout = sample_listing, stderr = []\<rparr>)]"
  have pw: "get_partitions_local ?w ''backup.img'' [] = (Inr ?g, ?tr1)"
    by (simp add: session_eval)
  have pv: "get_partitions_local ?v ''backup.img'' [] = (Inr ?g, ?tr1)"
    by (simp add: session_eval)
  have rcw: "returncode (?w t (Run (losetup_command ''backup.img''))) = 0"
    "returncode (?w t (Run local_mount_command)) = 1" for t
    by (simp_all add: run_eval)
  have rcv: "returncode (?v t (Run (losetup_command ''backup.img''))) = 0"
    "returncode (?v t (Run local_mount_command)) = 0"
    "returncode (?v t (OpenFile config_file ''w'')) = 0"
    "returncode (?v t (WriteData config_file c)) = 0" for t c
    by (simp_all add: run_eval)
  have a: "run_backup ?w ''/dev/sda'' ''backup.img'' ''@'' []
     = (Inl (CalledProcessError 1 local_mount_command),
        [(RunArgv (parted_argv ''backup.img''), \<lparr>returncode = 0, stdout = sample_listing, stderr = []\<rparr>),
         (Run (losetup_command ''backup.img''), \<lparr>returncode = 0, stdout = [], stderr = []\<rparr>),
         (Run local_mount_command, \<lparr>returncode = 1, stdout = [], stderr = ''failed''\<rparr>)])"
    using mount_failure_skips_cleanup [OF pw, of "''/dev/sda''" "''@''"] rcw
    by (simp add: run_eval)
  have b: "RunArgv btrbk_argv \<in> set (actions (snd (run_backup ?v ''/dev/sda'' ''backup.img'' ''@'' [])))"
    using mount_failure_skips_cleanup [OF pv, of "''/dev/sda''" "''@''"] rcv
    by (auto dest: prefix_last_mem)
  from pw a b show ?thesis by simp
qed

section \<open>C3: the length of the raw copy\<close>

text \<open>
  C3. The claim is that the raw copy transfers exactly as many bytes as the start
  offset of the btrfs partition, for every offset. The code asks \<open>dd\<close> for
  \<open>start // 1024\<close> blocks of 1 KiB. On the sample listing the btrfs partition starts
  at byte 1536: the command asks for one block, and with a remote \<open>dd\<close> that delivers
  what it is asked for, 1024 bytes reach the image instead of 1536.
\<close>

theorem raw_copy_stops_short:
  "copy_command device start = ''dd if='' @ device @ '' bs=1K count='' @ str_int (start div 1024) \<and>
   1024 * (start div 1024) = start - start mod 1024 \<and>
   get_btrfs_partition_offset (snd (projr (parse_parted_output sample_listing))) = Inr 1536 \<and>
   copy_command ''/dev/sda'' 1536 = ''dd if=/dev/sda bs=1K count=1'' \<and>
   fst (create_initial_image (session_world []) ''/dev/sda'' ''backup.img'' []) = Inr () \<and>
   written ''backup.img'' (snd (create_initial_image (session_world []) ''/dev/sda'' ''backup.img'' []))
     = take 1024 disk_bytes \<and>
   length (written ''backup.img'' (snd (create_initial_image (session_world []) ''/dev/sda'' ''backup.img'' [])))
     = 1024"
proof -
  have a: "copy_command device start = ''dd if='' @ device @ '' bs=1K count='' @ str_int (start div 1024)"
    by (simp add: copy_command_def)
  have b: "1024 * (start div 1024) = start - start mod 1024"
    by (simp add: minus_mod_eq_mult_div)
  have c: "get_btrfs_partition_offset (snd (projr (parse_parted_output sample_listing))) = Inr 1536"
    by (simp add: sample_parse sample_offset)
  have d: "fst (create_initial_image (session_world []) ''/dev/sda'' ''backup.img'' []) = Inr ()"
    by (simp add: initializer_eval)
  have e: "written ''backup.img'' (snd (create_initial_image (session_world []) ''/dev/sda'' ''backup.img'' []))
     = take 1024 disk_bytes"
    by (simp add: initializer_eval written_def)
  from a b c d e sample_copy_command disk_chunk show ?thesis by simp
qed

section \<open>C4: the probes and a failing listing command\<close>

text \<open>
  C4. The claim is that both probes raise an error wrapping the error stream when the
  listing command exits non-zero and never parse its output. The remote probe never
  looks at the exit status or the error stream: its result is the parse of whatever
  the command printed. For a device that does not exist it raises the parser's
  "Invalid parted output", where the local probe raises "Failed to run parted: ..."
  with the error stream; and a failed remote command that printed a listing is parsed
  as if it had succeeded.
\<close>

theorem remote_probe_ignores_exit_status:
  "fst (get_partitions_ssh w device tr)
     = parse_parted_output (stdout (w tr (ExecCommand (parted_command device)))) \<and>
   get_partitions_ssh missing_device_world ''/dev/sdz'' []
     = (Inl (ValueError ''Invalid parted output''),
        [(ExecCommand ''parted --machine /dev/sdz unit B print'',
          \<lparr>returncode = 1, stdout = [],
           stderr = ''Error: Could not stat device /dev/sdz - No such file or directory.''\<rparr>)]) \<and>
   fst (get_partitions_local missing_device_world ''/dev/sdz'' [])
     = Inl (RuntimeError
         ''Failed to run parted: Error: Could not stat device /dev/sdz - No such file or directory.'') \<and>
   returncode (session_world [ExecCommand (parted_command ''/dev/sda'')] []
                 (ExecCommand (parted_command ''/dev/sda''))) = 1 \<and>
   fst (get_partitions_ssh (session_world [ExecCommand (parted_command ''/dev/sda'')]) ''/dev/sda'' [])
     = Inr (''4096'', [(''1'', ''1023'', ''512'', ''fat32''), (''2'', ''2559'', ''1536'', ''btrfs'')])"
proof -
  have a: "fst (get_partitions_ssh w device tr)
     = parse_parted_output (stdout (w tr (ExecCommand (parted_command device))))"
    by (simp add: get_partitions_ssh_def perform_eq)
  have b: "get_partitions_ssh missing_device_world ''/dev/sdz'' []
     = (Inl (ValueError ''Invalid parted output''),
        [(ExecCommand ''parted --machine /dev/sdz unit B print'',
          \<lparr>returncode = 1, stdout = [],
           stderr = ''Error: Could not stat device /dev/sdz - No such file or directory.''\<rparr>)])"
    by (simp add: get_partitions_ssh_def missing_device_world_def parse_parted_output_def strip_def
        perform_eq after_def parted_command_def)
  have c: "fst (get_partitions_local missing_device_world ''/dev/sdz'' [])
     = Inl (RuntimeError
         ''Failed to run parted: Error: Could not stat device /dev/sdz - No such file or directory.'')"
    by (simp add: get_partitions_local_def missing_device_world_def perform_eq)
  have d: "returncode (session_world [ExecCommand (parted_command ''/dev/sda'')] []
                 (ExecCommand (parted_command ''/dev/sda''))) = 1"
    by (simp add: session_world_def)
  have e: "fst (get_partitions_ssh (session_world [ExecCommand (parted_command ''/dev/sda'')]) ''/dev/sda'' [])
     = Inr (''4096'', [(''1'', ''1023'', ''512'', ''fat32''), (''2'', ''2559'', ''1536'', ''btrfs'')])"
    by (simp add: get_partitions_ssh_def sample_parse run_eval)
  from a b c d e show ?thesis by simp
qed

section \<open>C5: detaching the loop device after the filesystem is made\<close>

text \<open>
  C5 as stated fails: when \<open>mkfs.btrfs\<close> fails, \<open>create_initial_image\<close> raises and
  the detach command is never run.
\<close>

theorem detach_counterexample:
  "returncode (session_world [Run (mkfs_command ''0f3a'')] [] (Run (mkfs_command ''0f3a''))) = 1 \<and>
   fst (create_initial_image (session_world [Run (mkfs_command ''0f3a'')]) ''/dev/sda'' ''backup.img'' [])
     = Inl (CalledProcessError 1 ''mkfs.btrfs --uuid 0f3a /dev/loop0p2'') \<and>
   actions (snd (create_initial_image (session_world [Run (mkfs_command ''0f3a'')])
                   ''/dev/sda'' ''backup.img'' []))
     = [ExecCommand ''parted --machine /dev/sda unit B print'',
        ExecCommand ''blkid -o value -s UUID /dev/sda2'',
        ExecCommand ''mount -o remount,ro /dev/sda1'',
        OpenFile ''backup.img'' ''wb'',
        Truncate ''backup.img'' 4096,
        ExecCommand ''dd if=/dev/sda bs=1K count=1'',
        OpenFile ''backup.img'' ''r+b'',
        WriteData ''backup.img'' (take 1024 disk_bytes),
        Run ''losetup /dev/loop0 --partscan backup.img'',
        Run ''mkfs.btrfs --uuid 0f3a /dev/loop0p2'']"
  by (simp add: initializer_eval)

text \<open>
  C5, amended. In a run of the Image Initializer the loop device is detached only on
  the path on which every earlier step succeeded: the detach command is attempted
  exactly if the run ends in success or in the failure of the detach itself. In
  particular, when the bind succeeds and the filesystem-creation command fails, the
  final step raises that command's error and no detach is attempted.
\<close>

theorem detach_only_on_success:
  fixes w :: world and uuid output_file device :: string and tr :: trace
  assumes fresh: "Run detach_command \<notin> set (actions tr)"
  defines "l \<equiv> w tr (Run (losetup_command output_file))"
    and "tr1 \<equiv> after w tr (Run (losetup_command output_file))"
  defines "k \<equiv> w tr1 (Run (mkfs_command uuid))"
    and "tr2 \<equiv> after w tr1 (Run (mkfs_command uuid))"
  shows "(Run detach_command \<in> set (actions (snd (create_initial_image w device output_file tr))) \<longleftrightarrow>
            fst (create_initial_image w device output_file tr) = Inr () \<or>
            (\<exists>rc. fst (create_initial_image w device output_file tr)
                     = Inl (CalledProcessError rc detach_command))) \<and>
         (returncode l = 0 \<and> returncode k \<noteq> 0 \<longrightarrow>
            make_filesystem w uuid output_file tr
              = (Inl (CalledProcessError (returncode k) (mkfs_command uuid)), tr2) \<and>
            Run detach_command \<notin> set (actions tr2))"
proof -
  have a: "Run detach_command \<in> set (actions (snd (create_initial_image w device output_file tr))) \<longleftrightarrow>
            fst (create_initial_image w device output_file tr) = Inr () \<or>
            (\<exists>rc. fst (create_initial_image w device output_file tr)
                     = Inl (CalledProcessError rc detach_command))"
    using create_initial_image_settled [OF fresh, of w device output_file] by (simp add: settled_def)
  have b: "make_filesystem w uuid output_file tr
              = (Inl (CalledProcessError (returncode k) (mkfs_command uuid)), tr2) \<and>
           Run detach_command \<notin> set (actions tr2)"
    if "returncode l = 0 \<and> returncode k \<noteq> 0"
    using that fresh detach_not_losetup [of output_file] detach_not_mkfs [of uuid]
    by (auto simp: make_filesystem_eq Let_def l_def k_def tr1_def tr2_def actions_after)
  from a b show ?thesis by blast
qed

theorem detach_only_on_success_witness:
  "Run detach_command \<notin> set (actions []) \<and>
   returncode (session_world [Run (mkfs_command ''0f3a'')] [] (Run (losetup_command ''backup.img''))) = 0 \<and>
   make_filesystem (session_world [Run (mkfs_command ''0f3a'')]) ''0f3a'' ''backup.img'' []
     = (Inl (CalledProcessError 1 (mkfs_command ''0f3a'')),
        [(Run (losetup_command ''backup.img''), \<lparr>returncode = 0, stdout = [], stderr = []\<rparr>),
         (Run (mkfs_command ''0f3a''), \<lparr>returncode = 1, stdout = [], stderr = ''failed''\<rparr>)]) \<and>
   Run detach_command \<notin>
     set (actions (snd (create_initial_image (session_world [Run (mkfs_command ''0f3a'')])
                          ''/dev/sda'' ''backup.img'' [])))"
proof -
  have fresh: "Run detach_command \<notin> set (actions [])" by (simp add: actions_def)
  have err: "fst (create_initial_image (session_world [Run (mkfs_command ''0f3a'')]) ''/dev/sda'' ''backup.img'' [])
     = Inl (CalledProcessError 1 ''mkfs.btrfs --uuid 0f3a /dev/loop0p2'')"
    by (simp add: initializer_eval)
  have ne: "''mkfs.btrfs --uuid 0f3a /dev/loop0p2'' \<noteq> detach_command"
    by (simp add: detach_command_def)
  from detach_only_on_success [OF fresh, of "session_world [Run (mkfs_command ''0f3a'')]"
      "''/dev/sda''" "''backup.img''" "''0f3a''"] err ne
  show ?thesis
    by (simp add: run_eval)
qed

section \<open>C6: the newest snapshot\<close>

text \<open>
  C6. Applied to any sequence of subvolume-listing lines, the selector keeps the listed
  names that start with the subvolume's name followed by a dot and returns the greatest
  of them in the lexicographic order of strings; when no name is kept it raises
  "No snapshots found.". On the three names of the specification's example, with
  prefix \<open>@.\<close>, it returns \<open>@.20250831T0152\<close>.
\<close>

theorem select_snapshot_max:
  "select_snapshot subvolume lines =
     (if snapshot_names subvolume lines = [] then Inl (ValueError ''No snapshots found.'')
      else Inr (Max (set (snapshot_names subvolume lines)))) \<and>
   snapshot_names ''@'' example_lines = [''@.20250101T0000'', ''@.20250831T0152'', ''@.20250601T1200''] \<and>
   select_snapshot ''@'' example_lines = Inr ''@.20250831T0152'' \<and>
   select_snapshot ''@'' other_lines = Inl (ValueError ''No snapshots found.'')"
proof -
  have names: "\<forall>n \<in> set (snapshot_names subvolume lines). n \<noteq> []"
    by (auto simp: snapshot_names_def dest: startswith_nonempty)
  have gen: "select_snapshot subvolume lines =
     (if snapshot_names subvolume lines = [] then Inl (ValueError ''No snapshots found.'')
      else Inr (Max (set (snapshot_names subvolume lines))))"
    using Max_nonempty_strings [OF _ names]
    by (simp add: select_snapshot_def find_newest_None)
  have ex: "select_snapshot ''@'' example_lines = Inr ''@.20250831T0152''"
    by (simp add: select_snapshot_def example_lines_def split_ws_def isspace_def falsy_def Let_def)
  have ex_names: "snapshot_names ''@'' example_lines
      = [''@.20250101T0000'', ''@.20250831T0152'', ''@.20250601T1200'']"
    by (simp add: snapshot_names_def listed_names_def example_lines_def split_ws_def isspace_def)
  have none: "select_snapshot ''@'' other_lines = Inl (ValueError ''No snapshots found.'')"
    by (simp add: select_snapshot_def other_lines_def split_ws_def isspace_def falsy_def Let_def)
  show ?thesis using gen ex ex_names none by simp
qed

theorem select_snapshot_max_witness:
  "snapshot_names ''@'' example_lines \<noteq> [] \<and>
   Max (set (snapshot_names ''@'' example_lines)) = ''@.20250831T0152''"
  using select_snapshot_max [of "''@''" example_lines] by (auto split: if_splits)

section \<open>C7: the size check before the backup\<close>



section \<open>C8: partition sizes\<close>

text \<open>
  C8. For every well-formed machine-readable partition listing the parser returns a
  result, with one record per kept data line, in the order of the lines: the \<open>i\<close>-th
  record is built from the \<open>i\<close>-th kept line, and its size field is the decimal text of
  that line's end offset minus its start offset, both read after the trailing \<open>B\<close> is
  stripped. Reading the size field back gives exactly that difference.
\<close>

theorem parse_sizes:
  assumes "well_formed output"
  shows "\<exists>disk_size partitions.
           parse_parted_output output = Inr (disk_size, partitions) \<and>
           length partitions = length (data_lines output) \<and>
           (\<forall>i < length partitions.
              \<exists>s e. py_int (start_field (data_lines output ! i)) = Some s \<and>
                    py_int (end_field (data_lines output ! i)) = Some e \<and>
                    fst (snd (partitions ! i)) = str_int (e - s) \<and>
                    py_int (fst (snd (partitions ! i))) = Some (e - s) \<and>
                    fst (partitions ! i) = split_on CHR '':'' (data_lines output ! i) ! 0 \<and>
                    fst (snd (snd (partitions ! i))) = start_field (data_lines output ! i) \<and>
                    snd (snd (snd (partitions ! i))) = split_on CHR '':'' (data_lines output ! i) ! 4)"
proof -
  let ?ls = "listing_lines output"
  let ?ds = "rstrip ''B'' (split_on CHR '':'' (?ls ! 1) ! 1)"
  let ?ps = "map record_of (data_lines output)"
  from assms have ok: "list_all offsets_ok (data_lines output)"
    and len: "\<not> length ?ls < 3" "\<not> length (split_on CHR '':'' (?ls ! 1)) < 2"
    by (simp_all add: well_formed_def)
  have lines: "parse_lines (drop 2 ?ls) [] = Inr ?ps"
    using ok parse_lines_ok [of "drop 2 ?ls"] by (simp add: data_lines_def)
  have res: "parse_parted_output output = Inr (?ds, ?ps)"
    using len lines by (simp add: parse_parted_output_def listing_lines_def [symmetric] Let_def)
  have each: "\<exists>s e. py_int (start_field (data_lines output ! i)) = Some s \<and>
                    py_int (end_field (data_lines output ! i)) = Some e \<and>
                    fst (snd (?ps ! i)) = str_int (e - s) \<and>
                    py_int (fst (snd (?ps ! i))) = Some (e - s) \<and>
                    fst (?ps ! i) = split_on CHR '':'' (data_lines output ! i) ! 0 \<and>
                    fst (snd (snd (?ps ! i))) = start_field (data_lines output ! i) \<and>
                    snd (snd (snd (?ps ! i))) = split_on CHR '':'' (data_lines output ! i) ! 4"
    if "i < length ?ps" for i
  proof -
    from that have i: "i < length (data_lines output)" by simp
    then have "offsets_ok (data_lines output ! i)" using ok by (simp add: list_all_length)
    then obtain s e where "py_int (start_field (data_lines output ! i)) = Some s"
      "py_int (end_field (data_lines output ! i)) = Some e"
      by (auto simp: offsets_ok_def)
    then show ?thesis using i by (simp add: record_of_def Let_def py_int_str_int)
  qed
  show ?thesis using res each by (intro exI [of _ ?ds] exI [of _ ?ps]) simp
qed

theorem parse_sizes_witness:
  "well_formed sample_listing \<and>
   (\<exists>disk_size partitions.
      parse_parted_output sample_listing = Inr (disk_size, partitions) \<and>
      length partitions = length (data_lines sample_listing) \<and>
      py_int (fst (snd (partitions ! 0))) = Some 1023 \<and>
      py_int (fst (snd (partitions ! 1))) = Some 2559)"
proof -
  have dl: "data_lines sample_listing =
      [''1:512B:1535B:1024B:fat32::boot;'', ''2:1536B:4095B:2560B:btrfs::;'']"
    by (simp add: data_lines_def sample_lines kept_def)
  from parse_sizes [OF sample_well_formed] obtain disk_size partitions where
    res: "parse_parted_output sample_listing = Inr (disk_size, partitions)" and
    len: "length partitions = length (data_lines sample_listing)" and
    each: "\<forall>i < length partitions.
              \<exists>s e. py_int (start_field (data_lines sample_listing ! i)) = Some s \<and>
                    py_int (end_field (data_lines sample_listing ! i)) = Some e \<and>
                    fst (snd (partitions ! i)) = str_int (e - s) \<and>
                    py_int (fst (snd (partitions ! i))) = Some (e - s) \<and>
                    fst (partitions ! i) = split_on CHR '':'' (data_lines sample_listing ! i) ! 0 \<and>
                    fst (snd (snd (partitions ! i))) = start_field (data_lines sample_listing ! i) \<and>
                    snd (snd (snd (partitions ! i))) = split_on CHR '':'' (data_lines sample_listing ! i) ! 4"
    by blast
  from len dl have l2: "length partitions = 2" by simp
  from each l2 have "\<exists>s e. py_int (start_field (data_lines sample_listing ! 0)) = Some s \<and>
      py_int (end_field (data_lines sample_listing ! 0)) = Some e \<and>
      py_int (fst (snd (partitions ! 0))) = Some (e - s)"
    by (metis zero_less_numeral)
  then have p0: "py_int (fst (snd (partitions ! 0))) = Some 1023"
    by (auto simp: dl start_field_def end_field_def parser_eval)
  from each l2 have "\<exists>s e. py_int (start_field (data_lines sample_listing ! 1)) = Some s \<and>
      py_int (end_field (data_lines sample_listing ! 1)) = Some e \<and>
      py_int (fst (snd (partitions ! 1))) = Some (e - s)"
    by (metis one_less_numeral_iff semiring_norm(76))
  then have p1: "py_int (fst (snd (partitions ! 1))) = Some 2559"
    by (auto simp: dl start_field_def end_field_def parser_eval)
  show ?thesis using sample_well_formed res len p0 p1 by blast
qed

section \<open>C9: which partition gives the identifier and which the copy length\<close>

text \<open>
  C9. Whenever the remote probe yields a non-empty partition list, the next command
  of the initializer reads the UUID from the device path of partition number 2,
  whatever the list says about filesystem types. The copy length comes from the first
  partition in listing order whose type is exactly \<open>btrfs\<close>: once the identifier is
  read and the image file is sized, the initializer either stops because no partition
  has that type, or issues \<open>dd\<close> with a block count computed from that partition's
  start, writes what \<open>dd\<close> sends and makes the filesystem with the identifier read
  from partition 2. The device path of a partition is that of partition 2 only if its
  number is 2.
\<close>

theorem uuid_partition_is_fixed:
  fixes w :: world and device output_file disk_size :: string and tr tr1 :: trace
    and partitions :: "partition list"
  assumes probe: "get_partitions_ssh w device tr = (Inr (disk_size, partitions), tr1)"
    and some: "partitions \<noteq> []"
  defines "blkid \<equiv> ExecCommand (''blkid -o value -s UUID '' @ get_partition_device device ''2'')"
  defines "uuid \<equiv> strip (stdout (w tr1 blkid))"
    and "tr2 \<equiv> after w tr1 blkid"
  defines "tr3 \<equiv> after w tr2 (ExecCommand (''mount -o remount,ro '' @ get_partition_device device ''1''))"
  defines "tr4 \<equiv> after w tr3 (OpenFile output_file ''wb'')"
  shows "prefix tr2 (snd (create_initial_image w device output_file tr)) \<and>
         get_btrfs_partition_offset partitions =
           (case List.find (\<lambda>part. snd (snd (snd part)) = ''btrfs'') partitions of
              None \<Rightarrow> Inl (ValueError ''No btrfs partition found on the device.'')
            | Some part \<Rightarrow>
                (case py_int (fst (snd (snd part))) of
                   None \<Rightarrow> Inl (IntValueError (fst (snd (snd part))))
                 | Some n \<Rightarrow> Inr n)) \<and>
         (get_partition_device device part_num = get_partition_device device ''2'' \<longleftrightarrow> part_num = ''2'') \<and>
         (uuid \<noteq> [] \<and> returncode (w tr3 (OpenFile output_file ''wb'')) = 0 \<and>
          py_int disk_size = Some nbytes \<and> returncode (w tr4 (Truncate output_file nbytes)) = 0 \<longrightarrow>
            create_initial_image w device output_file tr =
              (case List.find (\<lambda>part. snd (snd (snd part)) = ''btrfs'') partitions of
                 None \<Rightarrow> (Inl (ValueError ''No btrfs partition found on the device.''),
                          after w tr4 (Truncate output_file nbytes))
               | Some part \<Rightarrow>
                   (case py_int (fst (snd (snd part))) of
                      None \<Rightarrow> (Inl (IntValueError (fst (snd (snd part)))),
                               after w tr4 (Truncate output_file nbytes))
                    | Some start \<Rightarrow>
                        and_then
                          (file_op w (OpenFile output_file ''r+b'')
                             (after w (after w tr4 (Truncate output_file nbytes))
                                (ExecCommand (''dd if='' @ device @ '' bs=1K count='' @ str_int (start div 1024)))))
                          (\<lambda>_ tr9.
                             and_then
                               (copy_stream w output_file
                                  (stdout (w (after w tr4 (Truncate output_file nbytes))
                                     (ExecCommand (''dd if='' @ device @ '' bs=1K count=''
                                                     @ str_int (start div 1024)))))
                                  tr9)
                               (\<lambda>_ tr10. make_filesystem w uuid output_file tr10))))) \<and>
         (returncode (w t (Run (losetup_command output_file))) = 0 \<longrightarrow>
            prefix (after w (after w t (Run (losetup_command output_file)))
                      (Run (''mkfs.btrfs --uuid '' @ uuid @ '' /dev/loop0p2'')))
              (snd (make_filesystem w uuid output_file t)))"
proof -
  have a: "prefix tr2 (snd (create_initial_image w device output_file tr))"
    using initializer_reads_uuid_first [OF probe some, of output_file]
    by (simp add: blkid_command_def str_int_2 tr2_def blkid_def)
  have b: "get_btrfs_partition_offset partitions =
           (case List.find (\<lambda>part. snd (snd (snd part)) = ''btrfs'') partitions of
              None \<Rightarrow> Inl (ValueError ''No btrfs partition found on the device.'')
            | Some part \<Rightarrow>
                (case py_int (fst (snd (snd part))) of
                   None \<Rightarrow> Inl (IntValueError (fst (snd (snd part))))
                 | Some n \<Rightarrow> Inr n))"
    by (simp add: get_btrfs_partition_offset_def first_btrfs_find)
  have c: "get_partition_device device part_num = get_partition_device device ''2'' \<longleftrightarrow> part_num = ''2''"
    by (simp add: get_partition_device_def)
  have d: "create_initial_image w device output_file tr =
              (case List.find (\<lambda>part. snd (snd (snd part)) = ''btrfs'') partitions of
                 None \<Rightarrow> (Inl (ValueError ''No btrfs partition found on the device.''),
                          after w tr4 (Truncate output_file nbytes))
               | Some part \<Rightarrow>
                   (case py_int (fst (snd (snd part))) of
                      None \<Rightarrow> (Inl (IntValueError (fst (snd (snd part)))),
                               after w tr4 (Truncate output_file nbytes))
                    | Some start \<Rightarrow>
                        and_then
                          (file_op w (OpenFile output_file ''r+b'')
                             (after w (after w tr4 (Truncate output_file nbytes))
                                (ExecCommand (''dd if='' @ device @ '' bs=1K count='' @ str_int (start div 1024)))))
                          (\<lambda>_ tr9.
                             and_then
                               (copy_stream w output_file
                                  (stdout (w (after w tr4 (Truncate output_file nbytes))
                                     (ExecCommand (''dd if='' @ device @ '' bs=1K count=''
                                                     @ str_int (start div 1024)))))
                                  tr9)
                               (\<lambda>_ tr10. make_filesystem w uuid output_file tr10))))"
    if h: "uuid \<noteq> [] \<and> returncode (w tr3 (OpenFile output_file ''wb'')) = 0 \<and>
          py_int disk_size = Some nbytes \<and> returncode (w tr4 (Truncate output_file nbytes)) = 0"
  proof -
    have "create_initial_image w device output_file tr =
        and_then (get_btrfs_partition_offset partitions, after w tr4 (Truncate output_file nbytes))
          (\<lambda>btrfs_start tr7.
             (let (dd, tr8) = perform w (ExecCommand (copy_command device btrfs_start)) tr7
              in and_then (file_op w (OpenFile output_file ''r+b'') tr8) (\<lambda>_ tr9.
                 and_then (copy_stream w output_file (stdout dd) tr9) (\<lambda>_ tr10.
                   make_filesystem w uuid output_file tr10))))"
      using probe some h
      by (simp add: create_initial_image_def and_then_Inr and_then_Inl perform_eq file_op_eq
          to_int_def Let_def blkid_command_def str_int_2 str_int_1 uuid_def tr2_def tr3_def tr4_def
          blkid_def)
    then show ?thesis
      by (simp add: b and_then_Inl and_then_Inr perform_eq copy_command_def
          split: option.splits)
  qed
  have e: "prefix (after w (after w t (Run (losetup_command output_file)))
                      (Run (''mkfs.btrfs --uuid '' @ uuid @ '' /dev/loop0p2'')))
              (snd (make_filesystem w uuid output_file t))"
    if "returncode (w t (Run (losetup_command output_file))) = 0"
    using that by (rule make_filesystem_mkfs)
  from a b c d e show ?thesis by blast
qed

theorem uuid_partition_is_fixed_witness:
  "get_partitions_ssh (session_world []) ''/dev/sda'' []
     = (Inr (''4096'', [(''1'', ''1023'', ''512'', ''fat32''), (''2'', ''2559'', ''1536'', ''btrfs'')]),
        [(ExecCommand ''parted --machine /dev/sda unit B print'',
          \<lparr>returncode = 0, stdout = sample_listing, stderr = []\<rparr>)]) \<and>
   get_btrfs_partition_offset [(''1'', ''1023'', ''512'', ''fat32''), (''2'', ''2559'', ''1536'', ''btrfs'')]
     = Inr 1536 \<and>
   fst (create_initial_image (session_world []) ''/dev/sda'' ''backup.img'' []) = Inr () \<and>
   actions (snd (create_initial_image (session_world []) ''/dev/sda'' ''backup.img'' []))
     = [ExecCommand ''parted --machine /dev/sda unit B print'',
        ExecCommand ''blkid -o value -s UUID /dev/sda2'',
        ExecCommand ''mount -o remount,ro /dev/sda1'',
        OpenFile ''backup.img'' ''wb'',
        Truncate ''backup.img'' 4096,
        ExecCommand ''dd if=/dev/sda bs=1K count=1'',
        OpenFile ''backup.img'' ''r+b'',
        WriteData ''backup.img'' (take 1024 disk_bytes),
        Run ''losetup /dev/loop0 --partscan backup.img'',
        Run ''mkfs.btrfs --uuid 0f3a /dev/loop0p2'',
        Run ''losetup --detach /dev/loop0'']"
proof -
  let ?parts = "[(''1'', ''1023'', ''512'', ''fat32''), (''2'', ''2559'', ''1536'', ''btrfs'')]"
  let ?tr1 = "[(ExecCommand ''parted --machine /dev/sda unit B print'',
          \<lparr>returncode = 0, stdout = sample_listing, stderr = []\<rparr>)]"
  have probe: "get_partitions_ssh (session_world []) ''/dev/sda'' [] = (Inr (''4096'', ?parts), ?tr1)"
    by (simp add: get_partitions_ssh_def sample_parse run_eval)
  have some: "?parts \<noteq> []" by simp
  have sz: "py_int ''4096'' = Some 4096" "py_int ''1536'' = Some 1536"
    by (simp_all add: parser_eval)
  have cnt: "str_int (1536 div 1024) = ''1''"
    by (simp add: str_int_eval)
  have run: "create_initial_image (session_world []) ''/dev/sda'' ''backup.img'' [] =
      (Inr (),
       [(ExecCommand ''parted --machine /dev/sda unit B print'',
          \<lparr>returncode = 0, stdout = sample_listing, stderr = []\<rparr>),
        (ExecCommand ''blkid -o value -s UUID /dev/sda2'',
          \<lparr>returncode = 0, stdout = ''0f3a\<newline>'', stderr = []\<rparr>),
        (ExecCommand ''mount -o remount,ro /dev/sda1'', \<lparr>returncode = 0, stdout = [], stderr = []\<rparr>),
        (OpenFile ''backup.img'' ''wb'', \<lparr>returncode = 0, stdout = [], stderr = []\<rparr>),
        (Truncate ''backup.img'' 4096, \<lparr>returncode = 0, stdout = [], stderr = []\<rparr>),
        (ExecCommand ''dd if=/dev/sda bs=1K count=1'',
          \<lparr>returncode = 0, stdout = take 1024 disk_bytes, stderr = []\<rparr>),
        (OpenFile ''backup.img'' ''r+b'', \<lparr>returncode = 0, stdout = [], stderr = []\<rparr>),
        (WriteData ''backup.img'' (take 1024 disk_bytes), \<lparr>returncode = 0, stdout = [], stderr = []\<rparr>),
        (Run ''losetup /dev/loop0 --partscan backup.img'', \<lparr>returncode = 0, stdout = [], stderr = []\<rparr>),
        (Run ''mkfs.btrfs --uuid 0f3a /dev/loop0p2'', \<lparr>returncode = 0, stdout = [], stderr = []\<rparr>),
        (Run ''losetup --detach /dev/loop0'', \<lparr>returncode = 0, stdout = [], stderr = []\<rparr>)])"
    using uuid_partition_is_fixed [OF probe some, where output_file = "''backup.img''" and nbytes = 4096] sz cnt
    by (simp add: run_eval sample_uuid copy_one_chunk [OF disk_chunk] make_filesystem_def)
  have off: "get_btrfs_partition_offset ?parts = Inr 1536"
    by (rule sample_offset)
  from probe off run show ?thesis by (simp add: actions_def)
qed

section \<open>C10: offsets that are not integers\<close>

text \<open>
  C10 as stated fails: a listing of three lines whose second line has no colon makes
  the parser stop at \<open>disk_info[1]\<close> with an \<open>IndexError\<close>, before it looks at any
  partition line, although the third line has five fields and a start field that is
  not an integer.
\<close>

theorem bad_offset_counterexample:
  "3 \<le> length (listing_lines no_disk_field_listing) \<and>
   ''1:xB:1535B:1024B:fat32::;'' \<in> set (drop 2 (listing_lines no_disk_field_listing)) \<and>
   kept ''1:xB:1535B:1024B:fat32::;'' \<and>
   py_int (start_field ''1:xB:1535B:1024B:fat32::;'') = None \<and>
   parse_parted_output no_disk_field_listing = Inl IndexError"
  by (simp add: listing_lines_def no_disk_field_listing_def strip_def isspace_def kept_def
      start_field_def parse_parted_output_def parser_eval)

text \<open>
  C10, amended. For any listing that, once surrounding white space is stripped, has at
  least three lines and whose second line has at least two colon-separated fields: if
  some line after the second has at least five colon-separated fields and a start or
  end field that \<open>int()\<close> does not accept after the trailing \<open>B\<close>s are stripped, the
  parser raises the \<open>ValueError\<close> of \<open>int()\<close> on such a field. The line is not skipped
  and the error is not the parser's own "Invalid parted output".
\<close>

theorem bad_offset_raises:
  assumes "3 \<le> length (listing_lines output)"
    and "2 \<le> length (split_on CHR '':'' (listing_lines output ! 1))"
    and "line \<in> set (drop 2 (listing_lines output))"
    and "kept line"
    and "py_int (start_field line) = None \<or> py_int (end_field line) = None"
  shows "\<exists>s. parse_parted_output output = Inl (IntValueError s) \<and> py_int s = None"
proof -
  let ?ls = "listing_lines output"
  have "line \<in> set (filter kept (drop 2 ?ls))" using assms(3,4) by simp
  moreover have "\<not> offsets_ok line" using assms(5) by (auto simp: offsets_ok_def)
  ultimately have "\<not> list_all offsets_ok (filter kept (drop 2 ?ls))"
    by (auto simp: list_all_iff)
  from parse_lines_bad [OF this, of "[]"] obtain s
    where "parse_lines (drop 2 ?ls) [] = Inl (IntValueError s)" "py_int s = None" by blast
  then show ?thesis using assms(1,2)
    by (simp add: parse_parted_output_def listing_lines_def [symmetric] Let_def)
qed

theorem bad_offset_raises_witness:
  "3 \<le> length (listing_lines bad_offset_listing) \<and>
   2 \<le> length (split_on CHR '':'' (listing_lines bad_offset_listing ! 1)) \<and>
   ''1:0.5kB:1535B:1024B:fat32::;'' \<in> set (drop 2 (listing_lines bad_offset_listing)) \<and>
   kept ''1:0.5kB:1535B:1024B:fat32::;'' \<and>
   py_int (start_field ''1:0.5kB:1535B:1024B:fat32::;'') = None \<and>
   (\<exists>s. parse_parted_output bad_offset_listing = Inl (IntValueError s) \<and> py_int s = None)"
proof -
  have a: "3 \<le> length (listing_lines bad_offset_listing)"
    and b: "2 \<le> length (split_on CHR '':'' (listing_lines bad_offset_listing ! 1))"
    and c: "''1:0.5kB:1535B:1024B:fat32::;'' \<in> set (drop 2 (listing_lines bad_offset_listing))"
    by (simp_all add: listing_lines_def bad_offset_listing_def strip_def isspace_def)
  have d: "kept ''1:0.5kB:1535B:1024B:fat32::;''"
    by (simp add: kept_def)
  have e: "py_int (start_field ''1:0.5kB:1535B:1024B:fat32::;'') = None"
    by (simp add: start_field_def parser_eval)
  from bad_offset_raises [OF a b c d disjI1 [OF e]] a b c d e show ?thesis by blast
qed


end
